theory Spec2Isabelle
  imports Complex_Main
begin

section \<open>Python list indexing\<close>

text \<open>
  The notebooks index plain Python lists: \<^verbatim>\<open>DATA[u][r]\<close> with \<open>u\<close>, \<open>r\<close> from
  \<^verbatim>\<open>enumerate\<close>, and \<^verbatim>\<open>DATA[u][-1]\<close>, \<^verbatim>\<open>DATA[u][-2]\<close> counted from the end.
  An index outside the list raises \<^verbatim>\<open>IndexError\<close>. The other exception that a call on
  lists of integers can raise is \<^verbatim>\<open>OverflowError\<close>, when Python turns an integer that
  is too large into a float.
\<close>

datatype py_error = IndexError | OverflowError

definition py_index :: "'a list \<Rightarrow> int \<Rightarrow> py_error + 'a" where
  "py_index xs i =
     (if 0 \<le> i
      then (if i < int (length xs) then Inr (xs ! nat i) else Inl IndexError)
      else (if - int (length xs) \<le> i then Inr (xs ! nat (int (length xs) + i))
            else Inl IndexError))"

definition err_bind :: "'e + 'a \<Rightarrow> ('a \<Rightarrow> 'e + 'b) \<Rightarrow> 'e + 'b" where
  "err_bind x f = (case x of Inl e \<Rightarrow> Inl e | Inr v \<Rightarrow> f v)"

text \<open>Evaluating a sequence of fallible items in order; the first exception ends it.\<close>

fun sequence_errors :: "('e + 'a) list \<Rightarrow> 'e + 'a list" where
  "sequence_errors [] = Inr []"
| "sequence_errors (x # xs) =
     (case x of
        Inl e \<Rightarrow> Inl e
      | Inr v \<Rightarrow> (case sequence_errors xs of Inl e \<Rightarrow> Inl e | Inr vs \<Rightarrow> Inr (v # vs)))"

text \<open>\<^verbatim>\<open>DATA[u][c]\<close>: the row first, then the column.\<close>

definition entry :: "int list list \<Rightarrow> nat \<Rightarrow> int \<Rightarrow> py_error + int" where
  "entry DATA u c = err_bind (py_index DATA (int u)) (\<lambda>row. py_index row c)"

section \<open>The linear solver's model (Integer Programming notebook)\<close>

text \<open>
  \<^verbatim>\<open>solver.IntVar(lb, ub, name)\<close> creates an integer variable, \<^verbatim>\<open>solver.Add\<close> a row and
  \<^verbatim>\<open>solver.Maximize\<close>/\<^verbatim>\<open>solver.Minimize\<close> the objective. A linear expression
  \<^verbatim>\<open>sum(c(u) * units[u] for u, _ in enumerate(units))\<close> is kept as the list of its
  coefficients, one per variable in creation order. \<^verbatim>\<open>solver.infinity()\<close> is the
  upper bound \<open>Infinity\<close>.
\<close>

datatype upper_bound = Finite int | Infinity

record variable =
  var_name :: string
  var_lb :: int
  var_ub :: upper_bound

datatype sense = LE | GE

record row_constraint =
  coeffs :: "int list"
  row_sense :: sense
  rhs :: int

datatype direction = Maximize | Minimize

record lp_model =
  variables :: "variable list"
  constraints :: "row_constraint list"
  obj_coeffs :: "int list"
  obj_dir :: direction

text \<open>
  The engine keeps every number as a float, and Python's integers are unbounded. An
  integer is turned into a float when \<^verbatim>\<open>solver.Add\<close>, \<^verbatim>\<open>solver.Maximize\<close> or
  \<^verbatim>\<open>solver.Minimize\<close> takes the linear expression apart, and wherever an integer is
  multiplied with a float; Python raises \<^verbatim>\<open>OverflowError\<close> there unless the integer
  rounds (to nearest, ties to even) to a finite double, that is unless its absolute
  value is below \<open>2^1024 - 2^970\<close>. The model keeps the exact integers as coefficients.
\<close>

definition fits :: "int \<Rightarrow> bool" where
  "fits x \<longleftrightarrow> \<bar>x\<bar> < 2 ^ 1024 - 2 ^ 970"

text \<open>
  \<^verbatim>\<open>solver.Add(constraint)\<close>. With no unit the sum is the integer 0 and the comparison
  a plain \<^verbatim>\<open>bool\<close>, which is added as a constant row and converts nothing; otherwise
  the coefficients and the bound are converted.
\<close>

definition solver_Add :: "row_constraint \<Rightarrow> py_error + row_constraint" where
  "solver_Add c =
     (if coeffs c = [] then Inr c
      else if list_all fits (coeffs c) \<and> fits (rhs c) then Inr c
      else Inl OverflowError)"

text \<open>The objective handed to \<^verbatim>\<open>solver.Maximize\<close> or \<^verbatim>\<open>solver.Minimize\<close>.\<close>

definition solver_objective :: "int list \<Rightarrow> py_error + int list" where
  "solver_objective cs = (if list_all fits cs then Inr cs else Inl OverflowError)"

text \<open>\<^verbatim>\<open>units = [solver.IntVar(0, solver.infinity(), unit) for unit in UNITS]\<close>\<close>

definition make_units :: "string list \<Rightarrow> variable list" where
  "make_units UNITS = map (\<lambda>unit. \<lparr>var_name = unit, var_lb = 0, var_ub = Infinity\<rparr>) UNITS"

text \<open>\<^verbatim>\<open>sum(coeff(u) * units[u] for u, _ in enumerate(units))\<close> for \<open>n\<close> units.\<close>

definition unit_sum :: "nat \<Rightarrow> (nat \<Rightarrow> py_error + int) \<Rightarrow> py_error + int list" where
  "unit_sum n coeff = sequence_errors (map coeff [0..<n])"

text \<open>
  The loop \<^verbatim>\<open>for r, _ in enumerate(RESOURCES): solver.Add(sum(DATA[u][r] * units[u] ...) <= RESOURCES[r])\<close>.
\<close>

definition resource_constraint :: "int list list \<Rightarrow> int list \<Rightarrow> nat \<Rightarrow> nat \<Rightarrow> py_error + row_constraint" where
  "resource_constraint DATA RESOURCES n r =
     err_bind (unit_sum n (\<lambda>u. entry DATA u (int r)))
       (\<lambda>cs. solver_Add \<lparr>coeffs = cs, row_sense = LE, rhs = RESOURCES ! r\<rparr>)"

definition resource_constraints :: "int list list \<Rightarrow> int list \<Rightarrow> nat \<Rightarrow> py_error + row_constraint list" where
  "resource_constraints DATA RESOURCES n =
     sequence_errors (map (resource_constraint DATA RESOURCES n) [0..<length RESOURCES])"

text \<open>\<^verbatim>\<open>sum(DATA[u][-1] * units[u] for u, _ in enumerate(units))\<close>\<close>

definition trailing_values :: "int list list \<Rightarrow> nat \<Rightarrow> py_error + int list" where
  "trailing_values DATA n = unit_sum n (\<lambda>u. entry DATA u (- 1))"

text \<open>
  The model built by the first \<^verbatim>\<open>solve_army(UNITS, DATA, RESOURCES)\<close> (maximise the
  trailing column under the resource limits), up to the call of \<^verbatim>\<open>solver.Solve()\<close>.
\<close>

definition solve_army_model :: "string list \<Rightarrow> int list list \<Rightarrow> int list \<Rightarrow> py_error + lp_model" where
  "solve_army_model UNITS DATA RESOURCES =
     (let units = make_units UNITS in
      err_bind (resource_constraints DATA RESOURCES (length units)) (\<lambda>cons.
      err_bind (trailing_values DATA (length units)) (\<lambda>expr.
      err_bind (solver_objective expr) (\<lambda>obj.
        Inr \<lparr>variables = units, constraints = cons, obj_coeffs = obj, obj_dir = Maximize\<rparr>))))"

text \<open>
  \<^verbatim>\<open>(10 * DATA[u][-2] + DATA[u][-1])\<close>, the power of unit \<open>u\<close>, and
  \<^verbatim>\<open>(DATA[u][0] + DATA[u][1] + DATA[u][2])\<close>, its total resource cost.
\<close>

definition unit_power :: "int list list \<Rightarrow> nat \<Rightarrow> py_error + int" where
  "unit_power DATA u =
     err_bind (entry DATA u (- 2)) (\<lambda>attack.
     err_bind (entry DATA u (- 1)) (\<lambda>health. Inr (10 * attack + health)))"

definition unit_cost :: "int list list \<Rightarrow> nat \<Rightarrow> py_error + int" where
  "unit_cost DATA u =
     err_bind (entry DATA u 0) (\<lambda>food.
     err_bind (entry DATA u 1) (\<lambda>wood.
     err_bind (entry DATA u 2) (\<lambda>gold. Inr (food + wood + gold))))"

text \<open>\<^verbatim>\<open>solver.Add(sum((10 * DATA[u][-2] + DATA[u][-1]) * units[u] ...) >= 1000001)\<close>\<close>

definition power_constraint :: "int list list \<Rightarrow> nat \<Rightarrow> py_error + row_constraint" where
  "power_constraint DATA n =
     err_bind (unit_sum n (unit_power DATA))
       (\<lambda>cs. solver_Add \<lparr>coeffs = cs, row_sense = GE, rhs = 1000001\<rparr>)"

text \<open>
  The second \<^verbatim>\<open>solve_army\<close>: the resource limits as before, the objective
  \<^verbatim>\<open>solver.Maximize(sum((10*DATA[u][-2] + DATA[u][-1]) * units[u] ...))\<close>.
\<close>

definition solve_army_power_model :: "string list \<Rightarrow> int list list \<Rightarrow> int list \<Rightarrow> py_error + lp_model" where
  "solve_army_power_model UNITS DATA RESOURCES =
     (let units = make_units UNITS in
      err_bind (resource_constraints DATA RESOURCES (length units)) (\<lambda>cons.
      err_bind (unit_sum (length units) (unit_power DATA)) (\<lambda>expr.
      err_bind (solver_objective expr) (\<lambda>obj.
        Inr \<lparr>variables = units, constraints = cons, obj_coeffs = obj, obj_dir = Maximize\<rparr>))))"

text \<open>
  The third \<^verbatim>\<open>solve_army\<close>: the power constraint added once (\<^verbatim>\<open># 2. Add power constraint\<close>),
  no resource limits, the total cost minimised. \<^verbatim>\<open>RESOURCES\<close> is not used.
\<close>

definition solve_army_min_model :: "string list \<Rightarrow> int list list \<Rightarrow> int list \<Rightarrow> py_error + lp_model" where
  "solve_army_min_model UNITS DATA RESOURCES =
     (let units = make_units UNITS in
      err_bind (power_constraint DATA (length units)) (\<lambda>pc.
      err_bind (unit_sum (length units) (unit_cost DATA)) (\<lambda>expr.
      err_bind (solver_objective expr) (\<lambda>obj.
        Inr \<lparr>variables = units, constraints = [pc], obj_coeffs = obj, obj_dir = Minimize\<rparr>))))"

text \<open>
  The fourth, combined \<^verbatim>\<open>solve_army\<close>: a first loop over \<^verbatim>\<open>RESOURCES\<close> whose body adds
  the power constraint (the loop variable \<open>r\<close> is not used in the body), a second loop
  adding the resource limits, and the total cost minimised.
\<close>

definition power_constraints :: "int list list \<Rightarrow> int list \<Rightarrow> nat \<Rightarrow> py_error + row_constraint list" where
  "power_constraints DATA RESOURCES n =
     sequence_errors (map (\<lambda>r. power_constraint DATA n) [0..<length RESOURCES])"

definition solve_army_combined_model :: "string list \<Rightarrow> int list list \<Rightarrow> int list \<Rightarrow> py_error + lp_model" where
  "solve_army_combined_model UNITS DATA RESOURCES =
     (let units = make_units UNITS in
      err_bind (power_constraints DATA RESOURCES (length units)) (\<lambda>pcs.
      err_bind (resource_constraints DATA RESOURCES (length units)) (\<lambda>cons.
      err_bind (unit_sum (length units) (unit_cost DATA)) (\<lambda>expr.
      err_bind (solver_objective expr) (\<lambda>obj.
        Inr \<lparr>variables = units, constraints = pcs @ cons, obj_coeffs = obj, obj_dir = Minimize\<rparr>)))))"

text \<open>
  The model of the cell that writes the three-unit problem out by hand:
  \<^verbatim>\<open>solver.Add(swordsmen*60 + bowmen*80 + horsemen*140 <= 1200)\<close>,
  \<^verbatim>\<open>solver.Add(swordsmen*20 + bowmen*10 <= 800)\<close>, \<^verbatim>\<open>solver.Add(bowmen*40 + horsemen*100 <= 600)\<close>,
  \<^verbatim>\<open>solver.Maximize(swordsmen*70 + bowmen*95 + horsemen*230)\<close>.
\<close>

definition hand_written_model :: lp_model where
  "hand_written_model =
     \<lparr>variables =
        [\<lparr>var_name = ''swordsmen'', var_lb = 0, var_ub = Infinity\<rparr>,
         \<lparr>var_name = ''bowmen'', var_lb = 0, var_ub = Infinity\<rparr>,
         \<lparr>var_name = ''horsemen'', var_lb = 0, var_ub = Infinity\<rparr>],
      constraints =
        [\<lparr>coeffs = [60, 80, 140], row_sense = LE, rhs = 1200\<rparr>,
         \<lparr>coeffs = [20, 10, 0], row_sense = LE, rhs = 800\<rparr>,
         \<lparr>coeffs = [0, 40, 100], row_sense = LE, rhs = 600\<rparr>],
      obj_coeffs = [70, 95, 230],
      obj_dir = Maximize\<rparr>"

text \<open>
  The comparison model for the combined \<^verbatim>\<open>solve_army\<close>: the same function with the
  power constraint added exactly once, outside any loop, alongside the resource limits.
  It is not in the notebook; the combined version is compared with it below.
\<close>

definition solve_army_once_model :: "string list \<Rightarrow> int list list \<Rightarrow> int list \<Rightarrow> py_error + lp_model" where
  "solve_army_once_model UNITS DATA RESOURCES =
     (let units = make_units UNITS in
      err_bind (power_constraint DATA (length units)) (\<lambda>pc.
      err_bind (resource_constraints DATA RESOURCES (length units)) (\<lambda>cons.
      err_bind (unit_sum (length units) (unit_cost DATA)) (\<lambda>expr.
      err_bind (solver_objective expr) (\<lambda>obj.
        Inr \<lparr>variables = units, constraints = pc # cons, obj_coeffs = obj, obj_dir = Minimize\<rparr>)))))"

section \<open>What a model means\<close>

text \<open>
  An assignment gives every variable an integer (the variables are \<^verbatim>\<open>IntVar\<close>s), in
  creation order. It is feasible when every variable is inside its bounds and every
  row holds; an optimal value is the objective of a feasible assignment that no
  feasible assignment beats in the model's direction.
\<close>

definition dot :: "int list \<Rightarrow> int list \<Rightarrow> int" where
  "dot cs xs = sum_list (map2 (*) cs xs)"

definition in_domain :: "variable \<Rightarrow> int \<Rightarrow> bool" where
  "in_domain v x \<longleftrightarrow> var_lb v \<le> x \<and> (case var_ub v of Infinity \<Rightarrow> True | Finite ub \<Rightarrow> x \<le> ub)"

definition row_holds :: "row_constraint \<Rightarrow> int list \<Rightarrow> bool" where
  "row_holds c xs \<longleftrightarrow>
     (case row_sense c of LE \<Rightarrow> dot (coeffs c) xs \<le> rhs c | GE \<Rightarrow> rhs c \<le> dot (coeffs c) xs)"

definition feasible :: "lp_model \<Rightarrow> int list \<Rightarrow> bool" where
  "feasible m xs \<longleftrightarrow>
     list_all2 in_domain (variables m) xs \<and> list_all (\<lambda>c. row_holds c xs) (constraints m)"

definition objective :: "lp_model \<Rightarrow> int list \<Rightarrow> int" where
  "objective m xs = dot (obj_coeffs m) xs"

definition as_good :: "direction \<Rightarrow> int \<Rightarrow> int \<Rightarrow> bool" where
  "as_good d v w \<longleftrightarrow> (case d of Maximize \<Rightarrow> w \<le> v | Minimize \<Rightarrow> v \<le> w)"

definition optimal_value :: "lp_model \<Rightarrow> int \<Rightarrow> bool" where
  "optimal_value m v \<longleftrightarrow>
     (\<exists>xs. feasible m xs \<and> objective m xs = v) \<and>
     (\<forall>ys. feasible m ys \<longrightarrow> as_good (obj_dir m) v (objective m ys))"

section \<open>Solving and reporting (Integer Programming notebook)\<close>

text \<open>
  \<^verbatim>\<open>solver.Solve()\<close> is the external engine: it is a parameter of every function
  below, giving for a model the status and what the accessors return afterwards
  (\<^verbatim>\<open>solver.Objective().Value()\<close>, \<^verbatim>\<open>units[u].solution_value()\<close>,
  \<^verbatim>\<open>solver.wall_time()\<close>, \<^verbatim>\<open>solver.iterations()\<close>). The engine returns Python floats;
  they are carried as reals and only printed or summed.
\<close>

datatype lp_status = OPTIMAL | FEASIBLE | INFEASIBLE | UNBOUNDED | ABNORMAL | MODEL_INVALID | NOT_SOLVED

record solver_run =
  status :: lp_status
  objective_value :: real
  solution_value :: "nat \<Rightarrow> real"
  wall_time :: real
  iterations :: nat

text \<open>
  A printed line: a fixed text, the \<^verbatim>\<open>Solved in ... milliseconds in ... iterations\<close>
  line, \<^verbatim>\<open>label = number\<close> and the list item \<^verbatim>\<open> - name = number\<close>. The symbols that
  decorate the texts in the source are left out of the strings.
\<close>

datatype line = Text string | Timing real nat | Labelled string real | Item string real

text \<open>What a Python call hands back to its caller.\<close>

datatype py_value = PyNone | PyNumber real | PyText string | PyTuple "py_value list"
  | PyDict "(string \<times> py_value) list"

definition solution_header :: line where
  "solution_header = Text ''================= Solution =================''"

definition no_optimal_line :: line where
  "no_optimal_line = Text ''The solver could not find an optimal solution.''"

text \<open>
  The cells that solve the three-unit model written out by hand (the GLOP cell prints
  \<^verbatim>\<open>Optimal power\<close>, the CBC cell \<^verbatim>\<open>Optimal value\<close>); \<open>swordsmen\<close>, \<open>bowmen\<close>, \<open>horsemen\<close> are
  the variables 0, 1 and 2.
\<close>

definition report_three_units :: "string \<Rightarrow> solver_run \<Rightarrow> line list" where
  "report_three_units label run =
     (if status run = OPTIMAL then
        [solution_header, Timing (wall_time run) (iterations run), Text [],
         Labelled label (objective_value run), Text ''Army:'',
         Item ''Swordsmen'' (solution_value run 0),
         Item ''Bowmen'' (solution_value run 1),
         Item ''Horsemen'' (solution_value run 2)]
      else [no_optimal_line])"

text \<open>\<^verbatim>\<open>for u, _ in enumerate(units): print(f' - {units[u].name()} = {units[u].solution_value()}')\<close>\<close>

definition army_lines :: "variable list \<Rightarrow> solver_run \<Rightarrow> line list" where
  "army_lines units run =
     map (\<lambda>u. Item (var_name (units ! u)) (solution_value run u)) [0..<length units]"

text \<open>The report of the first and the second \<^verbatim>\<open>solve_army\<close>.\<close>

definition report_army :: "variable list \<Rightarrow> solver_run \<Rightarrow> line list" where
  "report_army units run =
     (if status run = OPTIMAL then
        [solution_header, Timing (wall_time run) (iterations run), Text [],
         Labelled ''Optimal value'' (objective_value run), Text ''Army:'']
        @ army_lines units run
      else [no_optimal_line])"

text \<open>
  The first \<^verbatim>\<open>solve_army\<close> as a whole: it builds the model, solves, prints, and falls
  off its end, so the caller receives \<^verbatim>\<open>None\<close>.
\<close>

definition solve_army :: "(lp_model \<Rightarrow> solver_run) \<Rightarrow> string list \<Rightarrow> int list list \<Rightarrow> int list
    \<Rightarrow> py_error + (line list \<times> py_value)" where
  "solve_army Solve UNITS DATA RESOURCES =
     err_bind (solve_army_model UNITS DATA RESOURCES)
       (\<lambda>m. Inr (report_army (variables m) (Solve m), PyNone))"

definition solve_army_power :: "(lp_model \<Rightarrow> solver_run) \<Rightarrow> string list \<Rightarrow> int list list \<Rightarrow> int list
    \<Rightarrow> py_error + (line list \<times> py_value)" where
  "solve_army_power Solve UNITS DATA RESOURCES =
     err_bind (solve_army_power_model UNITS DATA RESOURCES)
       (\<lambda>m. Inr (report_army (variables m) (Solve m), PyNone))"

text \<open>
  \<^verbatim>\<open>sum(coeff(u) * units[u].solution_value() for u, _ in enumerate(units))\<close>, as the
  third and fourth \<^verbatim>\<open>solve_army\<close> compute power, food, wood and gold of the solution.
  Each term indexes \<^verbatim>\<open>DATA\<close> again and multiplies the integer with the float value,
  which converts the integer. The report below evaluates the sums before it assembles
  its lines, so an exception raised in a sum comes back alone, without the lines the
  source prints ahead of that sum.
\<close>

definition solution_term :: "(nat \<Rightarrow> py_error + int) \<Rightarrow> solver_run \<Rightarrow> nat \<Rightarrow> py_error + real" where
  "solution_term coeff run u =
     err_bind (coeff u)
       (\<lambda>c. if fits c then Inr (real_of_int c * solution_value run u) else Inl OverflowError)"

definition solution_sum :: "nat \<Rightarrow> (nat \<Rightarrow> py_error + int) \<Rightarrow> solver_run \<Rightarrow> py_error + real" where
  "solution_sum n coeff run =
     err_bind (sequence_errors (map (solution_term coeff run) [0..<n])) (\<lambda>ts. Inr (sum_list ts))"

definition report_army_resources :: "int list list \<Rightarrow> variable list \<Rightarrow> solver_run
    \<Rightarrow> py_error + line list" where
  "report_army_resources DATA units run =
     (if status run = OPTIMAL then
        err_bind (solution_sum (length units) (unit_power DATA) run) (\<lambda>power.
        err_bind (solution_sum (length units) (\<lambda>u. entry DATA u 0) run) (\<lambda>food.
        err_bind (solution_sum (length units) (\<lambda>u. entry DATA u 1) run) (\<lambda>wood.
        err_bind (solution_sum (length units) (\<lambda>u. entry DATA u 2) run) (\<lambda>gold.
          Inr ([solution_header, Timing (wall_time run) (iterations run), Text [],
                Labelled ''Optimal value'' (objective_value run), Labelled ''Power'' power,
                Text ''Army:'']
               @ army_lines units run
               @ [Text [], Text ''Resources:'', Item ''Food'' food, Item ''Wood'' wood,
                  Item ''Gold'' gold])))))
      else Inr [no_optimal_line])"

definition solve_army_min :: "(lp_model \<Rightarrow> solver_run) \<Rightarrow> string list \<Rightarrow> int list list \<Rightarrow> int list
    \<Rightarrow> py_error + (line list \<times> py_value)" where
  "solve_army_min Solve UNITS DATA RESOURCES =
     err_bind (solve_army_min_model UNITS DATA RESOURCES) (\<lambda>m.
     err_bind (report_army_resources DATA (variables m) (Solve m)) (\<lambda>out. Inr (out, PyNone)))"

definition solve_army_combined :: "(lp_model \<Rightarrow> solver_run) \<Rightarrow> string list \<Rightarrow> int list list \<Rightarrow> int list
    \<Rightarrow> py_error + (line list \<times> py_value)" where
  "solve_army_combined Solve UNITS DATA RESOURCES =
     err_bind (solve_army_combined_model UNITS DATA RESOURCES) (\<lambda>m.
     err_bind (report_army_resources DATA (variables m) (Solve m)) (\<lambda>out. Inr (out, PyNone)))"

text \<open>
  A stand-in for the engine, to run the functions above on concrete inputs: it
  answers every model with the given status, objective value and variable values.
\<close>

definition answer :: "lp_status \<Rightarrow> real \<Rightarrow> real list \<Rightarrow> lp_model \<Rightarrow> solver_run" where
  "answer st obj vals m =
     \<lparr>status = st, objective_value = obj,
      solution_value = (\<lambda>u. if u < length vals then vals ! u else 0),
      wall_time = 0, iterations = 0\<rparr>"

text \<open>The success branch of a report was taken when its first line is the header.\<close>

definition success_printed :: "line list \<Rightarrow> bool" where
  "success_printed out \<longleftrightarrow> (case out of [] \<Rightarrow> False | l # _ \<Rightarrow> l = solution_header)"

text \<open>
  The inputs of the notebook: the three-unit table and the ten-unit table. The unit
  names are written without the pictograph that precedes each of them in the source.
\<close>

definition UNITS3 :: "string list" where
  "UNITS3 = [''Swordsmen'', ''Bowmen'', ''Horsemen'']"

definition DATA3 :: "int list list" where
  "DATA3 = [[60, 20, 0, 70], [80, 10, 40, 95], [140, 0, 100, 230]]"

definition RESOURCES3 :: "int list" where
  "RESOURCES3 = [1200, 800, 600]"

definition UNITS10 :: "string list" where
  "UNITS10 = [''Swordsmen'', ''Men-at-arms'', ''Bowmen'', ''Crossbowmen'', ''Handcannoneers'',
     ''Horsemen'', ''Knights'', ''Battering rams'', ''Springalds'', ''Mangonels'']"

definition DATA10 :: "int list list" where
  "DATA10 = [[60, 20, 0, 6, 70], [100, 0, 20, 12, 155], [30, 50, 0, 5, 70],
     [80, 0, 40, 12, 80], [120, 0, 120, 35, 150], [100, 20, 0, 9, 125],
     [140, 0, 100, 24, 230], [0, 300, 0, 200, 700], [0, 250, 250, 30, 200],
     [0, 400, 200, 12 * 3, 240]]"

definition RESOURCES10 :: "int list" where
  "RESOURCES10 = [183000, 90512, 80150]"

section \<open>The constraint models (Constraint Programming notebook)\<close>

text \<open>
  \<^verbatim>\<open>model.NewIntVar(lb, ub, name)\<close>, \<^verbatim>\<open>model.AddModuloEquality(target, var, mod)\<close>
  (\<^verbatim>\<open>var % mod = target\<close>, as the cell's own check prints it), \<^verbatim>\<open>model.Add(... <= capacity)\<close>
  and \<^verbatim>\<open>model.Maximize\<close>. A variable is named by its position in creation order.
\<close>

record cp_variable =
  cp_name :: string
  cp_lb :: int
  cp_ub :: int

datatype cp_constraint = ModuloEquality int nat int | LinearLe "int list" int

record cp_model =
  cp_variables :: "cp_variable list"
  cp_constraints :: "cp_constraint list"
  cp_maximize :: "int list option"

definition army_size_model :: cp_model where
  "army_size_model =
     \<lparr>cp_variables = [\<lparr>cp_name = ''army'', cp_lb = 1, cp_ub = 10000\<rparr>],
      cp_constraints = [ModuloEquality 0 0 13, ModuloEquality 0 0 19, ModuloEquality 0 0 37],
      cp_maximize = None\<rparr>"

definition ration_variables :: "int \<Rightarrow> cp_variable list" where
  "ration_variables capacity =
     [\<lparr>cp_name = ''bread'', cp_lb = 0, cp_ub = capacity\<rparr>,
      \<lparr>cp_name = ''meat'', cp_lb = 0, cp_ub = capacity\<rparr>,
      \<lparr>cp_name = ''beer'', cp_lb = 0, cp_ub = capacity\<rparr>]"

text \<open>The ration model for a given \<^verbatim>\<open>capacity\<close>; the notebook sets \<^verbatim>\<open>capacity = 19\<close>.\<close>

definition ration_model :: "int \<Rightarrow> cp_model" where
  "ration_model capacity =
     \<lparr>cp_variables = ration_variables capacity,
      cp_constraints = [LinearLe [1, 3, 7] capacity],
      cp_maximize = Some [3, 10, 26]\<rparr>"

text \<open>The model of the counting cell: the same variables and constraint, no objective.\<close>

definition ration_count_model :: "int \<Rightarrow> cp_model" where
  "ration_count_model capacity =
     \<lparr>cp_variables = ration_variables capacity,
      cp_constraints = [LinearLe [1, 3, 7] capacity],
      cp_maximize = None\<rparr>"

definition capacity :: int where
  "capacity = 19"

definition cp_in_domain :: "cp_variable \<Rightarrow> int \<Rightarrow> bool" where
  "cp_in_domain v x \<longleftrightarrow> cp_lb v \<le> x \<and> x \<le> cp_ub v"

fun cp_holds :: "cp_constraint \<Rightarrow> int list \<Rightarrow> bool" where
  "cp_holds (ModuloEquality target var modulus) xs \<longleftrightarrow>
     var < length xs \<and> xs ! var mod modulus = target"
| "cp_holds (LinearLe cs cap) xs \<longleftrightarrow> dot cs xs \<le> cap"

definition cp_feasible :: "cp_model \<Rightarrow> int list \<Rightarrow> bool" where
  "cp_feasible m xs \<longleftrightarrow>
     list_all2 cp_in_domain (cp_variables m) xs \<and> list_all (\<lambda>c. cp_holds c xs) (cp_constraints m)"

definition cp_objective :: "cp_model \<Rightarrow> int list \<Rightarrow> int" where
  "cp_objective m xs = (case cp_maximize m of None \<Rightarrow> 0 | Some cs \<Rightarrow> dot cs xs)"

definition cp_optimal_value :: "cp_model \<Rightarrow> int \<Rightarrow> bool" where
  "cp_optimal_value m v \<longleftrightarrow>
     (\<exists>xs. cp_feasible m xs \<and> cp_objective m xs = v) \<and>
     (\<forall>ys. cp_feasible m ys \<longrightarrow> cp_objective m ys \<le> v)"

text \<open>
  Every feasible point of a model, each once: what a search with
  \<^verbatim>\<open>enumerate_all_solutions = True\<close> hands to the solution callback.
\<close>

definition all_solutions :: "cp_model \<Rightarrow> int list list" where
  "all_solutions m =
     filter (\<lambda>xs. list_all (\<lambda>c. cp_holds c xs) (cp_constraints m))
       (product_lists (map (\<lambda>v. [cp_lb v..cp_ub v]) (cp_variables m)))"

text \<open>The callback class \<^verbatim>\<open>CountSolutions\<close> with its field \<^verbatim>\<open>__solution_count\<close>.\<close>

record CountSolutions =
  solution_count_field :: nat

definition CountSolutions_init :: CountSolutions where
  "CountSolutions_init = \<lparr>solution_count_field = 0\<rparr>"

definition on_solution_callback :: "CountSolutions \<Rightarrow> CountSolutions" where
  "on_solution_callback self = self\<lparr>solution_count_field := solution_count_field self + 1\<rparr>"

definition solution_count :: "CountSolutions \<Rightarrow> nat" where
  "solution_count self = solution_count_field self"

text \<open>\<^verbatim>\<open>solver.Solve(model, solution_printer)\<close>: one callback per solution found.\<close>

definition Solve_with_callback :: "cp_model \<Rightarrow> CountSolutions \<Rightarrow> CountSolutions" where
  "Solve_with_callback m cb = fold (\<lambda>sol self. on_solution_callback self) (all_solutions m) cb"

subsection \<open>Reporting (Constraint Programming notebook)\<close>

datatype cp_status = cp_UNKNOWN | cp_MODEL_INVALID | cp_FEASIBLE | cp_INFEASIBLE | cp_OPTIMAL

record cp_run =
  cp_status_of :: cp_status
  cp_value :: "nat \<Rightarrow> int"
  cp_wall_time :: real

datatype cp_line = CpText string | CpTiming real | CpLabelled string int | CpItem string int
  | CpCheck nat int int int

definition cp_solution_header :: cp_line where
  "cp_solution_header = CpText ''================= Solution =================''"

text \<open>
  The satisfiability cell (army size):
  \<^verbatim>\<open>if status == cp_model.OPTIMAL or status == cp_model.FEASIBLE:\<close>
\<close>

definition report_army_size :: "cp_run \<Rightarrow> cp_line list" where
  "report_army_size run =
     (if cp_status_of run = cp_OPTIMAL \<or> cp_status_of run = cp_FEASIBLE then
        [cp_solution_header, CpTiming (cp_wall_time run), CpText [],
         CpLabelled ''Army'' (cp_value run 0), CpText [], CpText ''Check solution:'',
         CpCheck 1 (cp_value run 0) 13 (cp_value run 0 mod 13),
         CpCheck 2 (cp_value run 0) 19 (cp_value run 0 mod 19),
         CpCheck 3 (cp_value run 0) 37 (cp_value run 0 mod 37)]
      else [CpText ''The solver could not find a solution.''])"

text \<open>The optimisation cell (rations): \<^verbatim>\<open>if status == cp_model.OPTIMAL:\<close>\<close>

definition report_ration :: "cp_run \<Rightarrow> cp_line list" where
  "report_ration run =
     (if cp_status_of run = cp_OPTIMAL then
        [cp_solution_header, CpTiming (cp_wall_time run), CpText [],
         CpLabelled ''Optimal value''
           (3 * cp_value run 0 + 10 * cp_value run 1 + 26 * cp_value run 2),
         CpText ''Food:'',
         CpItem ''Bread'' (cp_value run 0),
         CpItem ''Meat'' (cp_value run 1),
         CpItem ''Beer'' (cp_value run 2)]
      else [CpText ''The solver could not find an optimal solution.''])"

definition cp_success_printed :: "cp_line list \<Rightarrow> bool" where
  "cp_success_printed out \<longleftrightarrow> (case out of [] \<Rightarrow> False | l # _ \<Rightarrow> l = cp_solution_header)"

section \<open>Facts about the building blocks\<close>


lemma sequence_errors_Inr: "sequence_errors xs = Inr vs \<longleftrightarrow> xs = map Inr vs"
proof (induction xs arbitrary: vs)
  case Nil
  then show ?case by auto
next
  case (Cons x xs)
  show ?case
  proof (cases x)
    case (Inl e)
    then show ?thesis by (cases vs) auto
  next
    case xv: (Inr v)
    show ?thesis
    proof (cases "sequence_errors xs")
      case (Inl e)
      then have "xs \<noteq> map Inr ws" for ws using Cons.IH[of ws] by simp
      with Inl xv show ?thesis by (cases vs) auto
    next
      case (Inr ws)
      then have "xs = map Inr ws" using Cons.IH[of ws] by simp
      with Inr xv show ?thesis by (cases vs) (auto simp: inj_map_eq_map)
    qed
  qed
qed


lemma sequence_map_upt:
  "sequence_errors (map f [0..<n]) = Inr vs \<longleftrightarrow> length vs = n \<and> (\<forall>i<n. f i = Inr (vs ! i))"
proof -
  have "map f [0..<n] = map Inr vs \<longleftrightarrow> length vs = n \<and> (\<forall>i<n. f i = Inr (vs ! i))"
    by (auto simp: list_eq_iff_nth_eq)
  then show ?thesis by (simp add: sequence_errors_Inr)
qed

lemma unit_sum_Inr:
  "unit_sum n coeff = Inr cs \<longleftrightarrow> length cs = n \<and> (\<forall>u<n. coeff u = Inr (cs ! u))"
  by (simp add: unit_sum_def sequence_map_upt)

lemma err_bind_Inr: "err_bind x f = Inr y \<longleftrightarrow> (\<exists>v. x = Inr v \<and> f v = Inr y)"
  by (cases x) (simp_all add: err_bind_def)

lemma solver_Add_Inr:
  "solver_Add c = Inr c' \<longleftrightarrow>
     c' = c \<and> (coeffs c = [] \<or> (list_all fits (coeffs c) \<and> fits (rhs c)))"
  by (auto simp: solver_Add_def)

lemma solver_objective_Inr: "solver_objective cs = Inr obj \<longleftrightarrow> obj = cs \<and> list_all fits cs"
  by (auto simp: solver_objective_def)

lemma resource_constraint_Inr:
  "resource_constraint DATA RESOURCES n r = Inr c \<longleftrightarrow>
     (\<exists>cs. unit_sum n (\<lambda>u. entry DATA u (int r)) = Inr cs \<and>
         c = \<lparr>coeffs = cs, row_sense = LE, rhs = RESOURCES ! r\<rparr> \<and>
         (cs = [] \<or> (list_all fits cs \<and> fits (RESOURCES ! r))))"
  unfolding resource_constraint_def err_bind_Inr solver_Add_Inr by auto

lemma resource_constraints_Inr:
  "resource_constraints DATA RESOURCES n = Inr cons \<longleftrightarrow>
     length cons = length RESOURCES \<and>
     (\<forall>r<length RESOURCES. \<exists>cs. unit_sum n (\<lambda>u. entry DATA u (int r)) = Inr cs \<and>
         cons ! r = \<lparr>coeffs = cs, row_sense = LE, rhs = RESOURCES ! r\<rparr> \<and>
         (cs = [] \<or> (list_all fits cs \<and> fits (RESOURCES ! r))))"
  unfolding resource_constraints_def sequence_map_upt resource_constraint_Inr by simp

lemma solve_army_model_Inr:
  "solve_army_model UNITS DATA RESOURCES = Inr m \<longleftrightarrow>
     (\<exists>cons obj. resource_constraints DATA RESOURCES (length UNITS) = Inr cons \<and>
        trailing_values DATA (length UNITS) = Inr obj \<and> list_all fits obj \<and>
        m = \<lparr>variables = make_units UNITS, constraints = cons, obj_coeffs = obj, obj_dir = Maximize\<rparr>)"
  unfolding solve_army_model_def Let_def err_bind_Inr solver_objective_Inr
  by (auto simp: make_units_def)






lemma py_index_nat: "py_index xs (int r) = Inr v \<longleftrightarrow> r < length xs \<and> v = xs ! r"
  by (auto simp: py_index_def)

lemma py_index_last: "py_index xs (- 1) = Inr v \<longleftrightarrow> xs \<noteq> [] \<and> v = last xs"
proof (cases "xs = []")
  case True
  then show ?thesis by (simp add: py_index_def)
next
  case False
  then have "nat (int (length xs) + - 1) = length xs - 1"
    by (cases xs) simp_all
  with False show ?thesis
    by (auto simp: py_index_def last_conv_nth Suc_le_eq)
qed

lemma py_index_second_last:
  "py_index xs (- 2) = Inr v \<longleftrightarrow> 2 \<le> length xs \<and> v = xs ! (length xs - 2)"
proof (cases "2 \<le> length xs")
  case True
  then have "nat (int (length xs) + - 2) = length xs - 2"
    by simp
  with True show ?thesis
    by (auto simp: py_index_def)
next
  case False
  then show ?thesis by (auto simp: py_index_def)
qed

lemma entry_Inr:
  "entry DATA u c = Inr v \<longleftrightarrow> u < length DATA \<and> py_index (DATA ! u) c = Inr v"
  unfolding entry_def err_bind_Inr py_index_nat by auto

lemma entry_nonneg:
  "entry DATA u (int r) = Inr v \<longleftrightarrow> u < length DATA \<and> r < length (DATA ! u) \<and> v = DATA ! u ! r"
  by (simp add: entry_Inr py_index_nat)

lemma entry_last:
  "entry DATA u (- 1) = Inr v \<longleftrightarrow> u < length DATA \<and> DATA ! u \<noteq> [] \<and> v = last (DATA ! u)"
  by (simp add: entry_Inr py_index_last)

lemma entry_second_last:
  "entry DATA u (- 2) = Inr v \<longleftrightarrow>
     u < length DATA \<and> 2 \<le> length (DATA ! u) \<and> v = DATA ! u ! (length (DATA ! u) - 2)"
  by (simp add: entry_Inr py_index_second_last)




lemma fits_small: "\<bar>x\<bar> \<le> 2 ^ 64 \<Longrightarrow> fits x"
proof -
  assume a: "\<bar>x\<bar> \<le> 2 ^ 64"
  have "(2::int) ^ 970 * 2 ^ 54 = 2 ^ 1024"
    by (simp add: power_add[symmetric])
  then have "(2::int) ^ 1024 - 2 ^ 970 = 2 ^ 970 * (2 ^ 54 - 1)"
    by (simp add: algebra_simps)
  moreover have "(2::int) ^ 64 < 2 ^ 970 * 1"
    by (simp add: power_strict_increasing)
  moreover have "(2::int) ^ 970 * 1 \<le> 2 ^ 970 * (2 ^ 54 - 1)"
    by (intro mult_left_mono) simp_all
  ultimately have "(2::int) ^ 64 < 2 ^ 1024 - 2 ^ 970"
    by linarith
  with a show "fits x"
    by (simp add: fits_def)
qed

lemma unit_cost_Inr:
  "unit_cost DATA u = Inr v \<longleftrightarrow>
     u < length DATA \<and> 3 \<le> length (DATA ! u) \<and> v = DATA ! u ! 0 + DATA ! u ! 1 + DATA ! u ! 2"
proof -
  have e: "entry DATA u 0 = entry DATA u (int 0)" "entry DATA u 1 = entry DATA u (int 1)"
    "entry DATA u 2 = entry DATA u (int 2)"
    by simp_all
  show ?thesis
    unfolding unit_cost_def err_bind_Inr e entry_nonneg by auto
qed

lemma unit_power_Inr:
  "unit_power DATA u = Inr v \<longleftrightarrow>
     u < length DATA \<and> 2 \<le> length (DATA ! u) \<and>
     v = 10 * DATA ! u ! (length (DATA ! u) - 2) + last (DATA ! u)"
  unfolding unit_power_def err_bind_Inr entry_second_last entry_last by auto

lemma power_constraint_Inr:
  "power_constraint DATA n = Inr c \<longleftrightarrow>
     (\<exists>cs. unit_sum n (unit_power DATA) = Inr cs \<and>
         c = \<lparr>coeffs = cs, row_sense = GE, rhs = 1000001\<rparr> \<and> list_all fits cs)"
proof -
  have "fits 1000001" by (rule fits_small) simp
  then show ?thesis
    unfolding power_constraint_def err_bind_Inr solver_Add_Inr by auto
qed

lemma power_constraints_Inr:
  "power_constraints DATA RESOURCES n = Inr pcs \<longleftrightarrow>
     length pcs = length RESOURCES \<and> (\<forall>r<length RESOURCES. power_constraint DATA n = Inr (pcs ! r))"
  unfolding power_constraints_def sequence_map_upt by simp

lemma solve_army_combined_model_Inr:
  "solve_army_combined_model UNITS DATA RESOURCES = Inr m \<longleftrightarrow>
     (\<exists>pcs cons obj. power_constraints DATA RESOURCES (length UNITS) = Inr pcs \<and>
        resource_constraints DATA RESOURCES (length UNITS) = Inr cons \<and>
        unit_sum (length UNITS) (unit_cost DATA) = Inr obj \<and> list_all fits obj \<and>
        m = \<lparr>variables = make_units UNITS, constraints = pcs @ cons, obj_coeffs = obj, obj_dir = Minimize\<rparr>)"
  unfolding solve_army_combined_model_def Let_def err_bind_Inr solver_objective_Inr
  by (auto simp: make_units_def)

lemma make_units_names: "map var_name (make_units UNITS) = UNITS"
  by (simp add: make_units_def comp_def)

lemma make_units_domain: "list_all (\<lambda>v. var_lb v = 0 \<and> var_ub v = Infinity) (make_units UNITS)"
  by (simp add: make_units_def list_all_iff)

lemma resource_constraints_nth:
  assumes "resource_constraints DATA RESOURCES n = Inr cons" and "r < length RESOURCES"
  shows "row_sense (cons ! r) = LE \<and> rhs (cons ! r) = RESOURCES ! r \<and>
     length (coeffs (cons ! r)) = n \<and>
     (\<forall>u<n. entry DATA u (int r) = Inr (coeffs (cons ! r) ! u))"
proof -
  from assms obtain cs where cs: "unit_sum n (\<lambda>u. entry DATA u (int r)) = Inr cs"
    and c: "cons ! r = \<lparr>coeffs = cs, row_sense = LE, rhs = RESOURCES ! r\<rparr>"
    unfolding resource_constraints_Inr by blast
  from cs have "length cs = n \<and> (\<forall>u<n. entry DATA u (int r) = Inr (cs ! u))"
    by (simp add: unit_sum_Inr)
  with c show ?thesis by auto
qed

lemma power_constraints_senses:
  assumes "power_constraints DATA RESOURCES n = Inr pcs"
  shows "map row_sense pcs = replicate (length RESOURCES) GE"
proof -
  from assms have len: "length pcs = length RESOURCES"
    and each: "\<forall>r<length RESOURCES. power_constraint DATA n = Inr (pcs ! r)"
    unfolding power_constraints_Inr by simp_all
  have "row_sense (pcs ! r) = GE" if "r < length RESOURCES" for r
    using each that unfolding power_constraint_Inr by (metis row_constraint.select_convs(2))
  with len show ?thesis
    by (simp add: list_eq_iff_nth_eq)
qed

lemma resource_constraints_senses:
  assumes "resource_constraints DATA RESOURCES n = Inr cons"
  shows "map row_sense cons = replicate (length RESOURCES) LE"
proof -
  from assms have len: "length cons = length RESOURCES"
    unfolding resource_constraints_Inr by simp
  have "row_sense (cons ! r) = LE" if "r < length RESOURCES" for r
    using resource_constraints_nth[OF assms that] by simp
  with len show ?thesis
    by (simp add: list_eq_iff_nth_eq)
qed

section \<open>The shape of the model that solve_army builds\<close>

text \<open>
  Claim C1, as amended. Whenever the first \<^verbatim>\<open>solve_army\<close> builds a model, the model has
  one variable per unit name, in order, each with domain \<open>[0, +infinity)\<close>; exactly
  \<open>len(RESOURCES)\<close> constraints, the \<open>r\<close>-th being
  \<open>sum over u of DATA[u][r] * units[u] \<le> RESOURCES[r]\<close>; and the objective maximises
  \<open>sum over u of DATA[u][-1] * units[u]\<close>. The combined \<^verbatim>\<open>solve_army\<close> builds the same
  variables and, after \<open>len(RESOURCES)\<close> \<open>\<ge>\<close>-rows, the same \<open>len(RESOURCES)\<close>
  \<open>\<le>\<close>-constraints, but its objective minimises
  \<open>sum over u of (DATA[u][0] + DATA[u][1] + DATA[u][2]) * units[u]\<close>: the coefficient
  is not the trailing column.
\<close>

theorem solve_army_model_shape:
  "(solve_army_model UNITS DATA RESOURCES = Inr m \<longrightarrow>
      map var_name (variables m) = UNITS \<and>
      list_all (\<lambda>v. var_lb v = 0 \<and> var_ub v = Infinity) (variables m) \<and>
      length (constraints m) = length RESOURCES \<and>
      (\<forall>r<length RESOURCES.
         row_sense (constraints m ! r) = LE \<and> rhs (constraints m ! r) = RESOURCES ! r \<and>
         length (coeffs (constraints m ! r)) = length UNITS \<and>
         (\<forall>u<length UNITS. entry DATA u (int r) = Inr (coeffs (constraints m ! r) ! u))) \<and>
      obj_dir m = Maximize \<and> length (obj_coeffs m) = length UNITS \<and>
      (\<forall>u<length UNITS. entry DATA u (- 1) = Inr (obj_coeffs m ! u)))
   \<and> (solve_army_combined_model UNITS' DATA' RESOURCES' = Inr m' \<longrightarrow>
      map var_name (variables m') = UNITS' \<and>
      list_all (\<lambda>v. var_lb v = 0 \<and> var_ub v = Infinity) (variables m') \<and>
      map row_sense (constraints m') =
        replicate (length RESOURCES') GE @ replicate (length RESOURCES') LE \<and>
      (\<forall>r<length RESOURCES'.
         rhs (constraints m' ! (length RESOURCES' + r)) = RESOURCES' ! r \<and>
         length (coeffs (constraints m' ! (length RESOURCES' + r))) = length UNITS' \<and>
         (\<forall>u<length UNITS'.
            entry DATA' u (int r) = Inr (coeffs (constraints m' ! (length RESOURCES' + r)) ! u))) \<and>
      obj_dir m' = Minimize \<and> length (obj_coeffs m') = length UNITS' \<and>
      (\<forall>u<length UNITS'. obj_coeffs m' ! u = DATA' ! u ! 0 + DATA' ! u ! 1 + DATA' ! u ! 2))"
proof (intro conjI impI)
  assume a: "solve_army_model UNITS DATA RESOURCES = Inr m"
  then obtain cons obj where cons: "resource_constraints DATA RESOURCES (length UNITS) = Inr cons"
    and obj: "trailing_values DATA (length UNITS) = Inr obj"
    and m: "m = \<lparr>variables = make_units UNITS, constraints = cons, obj_coeffs = obj, obj_dir = Maximize\<rparr>"
    unfolding solve_army_model_Inr by blast
  show "map var_name (variables m) = UNITS" by (simp add: m make_units_names)
  show "list_all (\<lambda>v. var_lb v = 0 \<and> var_ub v = Infinity) (variables m)"
    by (simp add: m make_units_domain)
  show "length (constraints m) = length RESOURCES"
    using cons by (simp add: m resource_constraints_Inr)
  show "\<forall>r<length RESOURCES.
         row_sense (constraints m ! r) = LE \<and> rhs (constraints m ! r) = RESOURCES ! r \<and>
         length (coeffs (constraints m ! r)) = length UNITS \<and>
         (\<forall>u<length UNITS. entry DATA u (int r) = Inr (coeffs (constraints m ! r) ! u))"
    using resource_constraints_nth[OF cons] by (simp add: m)
  show "obj_dir m = Maximize" by (simp add: m)
  from obj show "length (obj_coeffs m) = length UNITS"
    by (simp add: m trailing_values_def unit_sum_Inr)
  from obj show "\<forall>u<length UNITS. entry DATA u (- 1) = Inr (obj_coeffs m ! u)"
    by (simp add: m trailing_values_def unit_sum_Inr)
next
  assume a: "solve_army_combined_model UNITS' DATA' RESOURCES' = Inr m'"
  then obtain pcs cons obj where pcs: "power_constraints DATA' RESOURCES' (length UNITS') = Inr pcs"
    and cons: "resource_constraints DATA' RESOURCES' (length UNITS') = Inr cons"
    and obj: "unit_sum (length UNITS') (unit_cost DATA') = Inr obj"
    and m: "m' = \<lparr>variables = make_units UNITS', constraints = pcs @ cons, obj_coeffs = obj, obj_dir = Minimize\<rparr>"
    unfolding solve_army_combined_model_Inr by blast
  from pcs have lp: "length pcs = length RESOURCES'"
    by (simp add: power_constraints_Inr)
  show "map var_name (variables m') = UNITS'" by (simp add: m make_units_names)
  show "list_all (\<lambda>v. var_lb v = 0 \<and> var_ub v = Infinity) (variables m')"
    by (simp add: m make_units_domain)
  show "map row_sense (constraints m') =
        replicate (length RESOURCES') GE @ replicate (length RESOURCES') LE"
    by (simp add: m power_constraints_senses[OF pcs] resource_constraints_senses[OF cons])
  show "\<forall>r<length RESOURCES'.
         rhs (constraints m' ! (length RESOURCES' + r)) = RESOURCES' ! r \<and>
         length (coeffs (constraints m' ! (length RESOURCES' + r))) = length UNITS' \<and>
         (\<forall>u<length UNITS'.
            entry DATA' u (int r) = Inr (coeffs (constraints m' ! (length RESOURCES' + r)) ! u))"
    using resource_constraints_nth[OF cons] lp by (simp add: m nth_append)
  show "obj_dir m' = Minimize" by (simp add: m)
  from obj show "length (obj_coeffs m') = length UNITS'"
    by (simp add: m unit_sum_Inr)
  from obj show "\<forall>u<length UNITS'. obj_coeffs m' ! u = DATA' ! u ! 0 + DATA' ! u ! 1 + DATA' ! u ! 2"
    by (simp add: m unit_sum_Inr unit_cost_Inr)
qed

text \<open>
  The theorem at the notebook's three-unit table (the first \<^verbatim>\<open>solve_army\<close> builds the
  model that the earlier cell wrote out by hand, up to the names) and, for the combined
  version, at one unit with the row \<open>[1, 2, 3, 4, 5]\<close> and the capacity \<open>[7]\<close>.
\<close>

theorem solve_army_model_shape_witness:
  "solve_army_model UNITS3 DATA3 RESOURCES3 =
     Inr (hand_written_model\<lparr>variables := make_units UNITS3\<rparr>) \<and>
   solve_army_combined_model [''a''] [[1, 2, 3, 4, 5]] [7] =
     Inr \<lparr>variables = make_units [''a''],
          constraints = [\<lparr>coeffs = [45], row_sense = GE, rhs = 1000001\<rparr>,
                         \<lparr>coeffs = [1], row_sense = LE, rhs = 7\<rparr>],
          obj_coeffs = [6], obj_dir = Minimize\<rparr> \<and>
   map var_name (variables (hand_written_model\<lparr>variables := make_units UNITS3\<rparr>)) = UNITS3 \<and>
   length (constraints (hand_written_model\<lparr>variables := make_units UNITS3\<rparr>)) = length RESOURCES3 \<and>
   obj_dir (hand_written_model\<lparr>variables := make_units UNITS3\<rparr>) = Maximize"
proof -
  have h1: "solve_army_model UNITS3 DATA3 RESOURCES3 =
      Inr (hand_written_model\<lparr>variables := make_units UNITS3\<rparr>)"
    by code_simp
  have h2: "solve_army_combined_model [''a''] [[1, 2, 3, 4, 5]] [7] =
     Inr \<lparr>variables = make_units [''a''],
          constraints = [\<lparr>coeffs = [45], row_sense = GE, rhs = 1000001\<rparr>,
                         \<lparr>coeffs = [1], row_sense = LE, rhs = 7\<rparr>],
          obj_coeffs = [6], obj_dir = Minimize\<rparr>"
    by code_simp
  from solve_army_model_shape[of UNITS3 DATA3 RESOURCES3
      "hand_written_model\<lparr>variables := make_units UNITS3\<rparr>" "[''a'']" "[[1, 2, 3, 4, 5]]" "[7]"
      "\<lparr>variables = make_units [''a''],
          constraints = [\<lparr>coeffs = [45], row_sense = GE, rhs = 1000001\<rparr>,
                         \<lparr>coeffs = [1], row_sense = LE, rhs = 7\<rparr>],
          obj_coeffs = [6], obj_dir = Minimize\<rparr>"] h1 h2
  have "map var_name (variables (hand_written_model\<lparr>variables := make_units UNITS3\<rparr>)) = UNITS3 \<and>
   length (constraints (hand_written_model\<lparr>variables := make_units UNITS3\<rparr>)) = length RESOURCES3 \<and>
   obj_dir (hand_written_model\<lparr>variables := make_units UNITS3\<rparr>) = Maximize"
    by blast
  with h1 h2 show ?thesis by blast
qed

text \<open>
  Claim C1 as stated fails for the combined \<^verbatim>\<open>solve_army\<close> on the notebook's ten-unit
  table: the objective coefficients it builds (80 for the first unit) are not the
  trailing value column (70 for the first unit).
\<close>

theorem solve_army_objective_counterexample:
  "map_sum id obj_coeffs (solve_army_combined_model UNITS10 DATA10 RESOURCES10) =
     Inr [80, 120, 80, 120, 240, 120, 240, 300, 500, 600] \<and>
   trailing_values DATA10 (length UNITS10) =
     Inr [70, 155, 70, 80, 150, 125, 230, 700, 200, 240]"
  by code_simp

section \<open>Malformed dimensions\<close>



















section \<open>What solve_army hands back\<close>

lemma make_units_nth: "u < length UNITS \<Longrightarrow> var_name (make_units UNITS ! u) = UNITS ! u"
  by (simp add: make_units_def)

lemma army_lines_names:
  "army_lines (make_units UNITS) run =
     map (\<lambda>u. Item (UNITS ! u) (solution_value run u)) [0..<length UNITS]"
  by (simp add: army_lines_def make_units_nth make_units_def)

lemma solve_army_model_variables:
  "solve_army_model UNITS DATA RESOURCES = Inr m \<Longrightarrow> variables m = make_units UNITS"
  by (auto simp: solve_army_model_Inr)

text \<open>
  Claim C2, as amended. When the first \<^verbatim>\<open>solve_army\<close> has built its model and the
  engine answers \<^verbatim>\<open>OPTIMAL\<close>, the call prints the objective value and one line per unit
  with its name and value, and returns \<^verbatim>\<open>None\<close>. When the engine answers any other
  status, the call prints the single line
  \<^verbatim>\<open>The solver could not find an optimal solution.\<close>, whatever the status was, raises
  nothing and returns \<^verbatim>\<open>None\<close>.
\<close>

theorem solve_army_outcome:
  "solve_army_model UNITS DATA RESOURCES = Inr m \<Longrightarrow>
     (status (Solve m) = OPTIMAL \<longrightarrow>
        solve_army Solve UNITS DATA RESOURCES =
          Inr ([solution_header, Timing (wall_time (Solve m)) (iterations (Solve m)), Text [],
                Labelled ''Optimal value'' (objective_value (Solve m)), Text ''Army:'']
               @ map (\<lambda>u. Item (UNITS ! u) (solution_value (Solve m) u)) [0..<length UNITS],
               PyNone)) \<and>
     (status (Solve m) \<noteq> OPTIMAL \<longrightarrow>
        solve_army Solve UNITS DATA RESOURCES = Inr ([no_optimal_line], PyNone))"
proof -
  assume m: "solve_army_model UNITS DATA RESOURCES = Inr m"
  then have v: "variables m = make_units UNITS"
    by (rule solve_army_model_variables)
  from m have call: "solve_army Solve UNITS DATA RESOURCES =
      Inr (report_army (make_units UNITS) (Solve m), PyNone)"
    by (simp add: solve_army_def err_bind_def v)
  show ?thesis
    unfolding call by (simp add: report_army_def army_lines_names)
qed

text \<open>
  The theorem on the notebook's three-unit table, with an engine that answers the
  notebook's printed result, and with one that answers \<^verbatim>\<open>INFEASIBLE\<close>.
\<close>

theorem solve_army_outcome_witness:
  "solve_army (answer OPTIMAL 1800 [6, 0, 6]) UNITS3 DATA3 RESOURCES3 =
     Inr ([solution_header, Timing 0 0, Text [], Labelled ''Optimal value'' 1800, Text ''Army:'',
           Item ''Swordsmen'' 6, Item ''Bowmen'' 0, Item ''Horsemen'' 6], PyNone) \<and>
   solve_army (answer INFEASIBLE 0 []) UNITS3 DATA3 RESOURCES3 = Inr ([no_optimal_line], PyNone)"
proof -
  let ?m = "hand_written_model\<lparr>variables := make_units UNITS3\<rparr>"
  have m: "solve_army_model UNITS3 DATA3 RESOURCES3 = Inr ?m"
    by code_simp
  have up: "[0..<length UNITS3] = [0, 1, 2]"
    by (simp add: UNITS3_def upt_rec)
  from solve_army_outcome[OF m, of "answer OPTIMAL 1800 [6, 0, 6]"]
  have a: "solve_army (answer OPTIMAL 1800 [6, 0, 6]) UNITS3 DATA3 RESOURCES3 =
     Inr ([solution_header, Timing 0 0, Text [], Labelled ''Optimal value'' 1800, Text ''Army:'',
           Item ''Swordsmen'' 6, Item ''Bowmen'' 0, Item ''Horsemen'' 6], PyNone)"
    unfolding up by (simp add: answer_def UNITS3_def)
  from solve_army_outcome[OF m, of "answer INFEASIBLE 0 []"]
  have b: "solve_army (answer INFEASIBLE 0 []) UNITS3 DATA3 RESOURCES3 =
     Inr ([no_optimal_line], PyNone)"
    by (simp add: answer_def)
  from a b show ?thesis by blast
qed

text \<open>
  Claim C2 as stated fails on the notebook's three-unit table. With an engine that
  answers \<^verbatim>\<open>OPTIMAL\<close> the call returns \<^verbatim>\<open>None\<close>, not a solution mapping with the
  objective value; and the caller receives the very same outcome whether the engine
  answers \<^verbatim>\<open>INFEASIBLE\<close> or \<^verbatim>\<open>UNBOUNDED\<close>.
\<close>

theorem solve_army_returns_none_counterexample:
  "map_sum id snd (solve_army (answer OPTIMAL 1800 [6, 0, 6]) UNITS3 DATA3 RESOURCES3) = Inr PyNone \<and>
   solve_army (answer INFEASIBLE 0 []) UNITS3 DATA3 RESOURCES3 =
     solve_army (answer UNBOUNDED 0 []) UNITS3 DATA3 RESOURCES3"
proof -
  let ?m = "hand_written_model\<lparr>variables := make_units UNITS3\<rparr>"
  have m: "solve_army_model UNITS3 DATA3 RESOURCES3 = Inr ?m"
    by code_simp
  have a: "map_sum id snd (solve_army (answer OPTIMAL 1800 [6, 0, 6]) UNITS3 DATA3 RESOURCES3) = Inr PyNone"
    by (simp add: solve_army_def m err_bind_def)
  have b: "solve_army (answer INFEASIBLE 0 []) UNITS3 DATA3 RESOURCES3 = Inr ([no_optimal_line], PyNone)"
    by (simp add: solve_army_def m err_bind_def report_army_def answer_def)
  have c: "solve_army (answer UNBOUNDED 0 []) UNITS3 DATA3 RESOURCES3 = Inr ([no_optimal_line], PyNone)"
    by (simp add: solve_army_def m err_bind_def report_army_def answer_def)
  from a b c show ?thesis by simp
qed

section \<open>Which status takes the success branch\<close>

lemma report_army_resources_failure:
  "status run \<noteq> OPTIMAL \<Longrightarrow> report_army_resources DATA units run = Inr [no_optimal_line]"
  by (simp add: report_army_resources_def)

lemma header_is_not_failure: "no_optimal_line \<noteq> solution_header"
  by (simp add: no_optimal_line_def solution_header_def)

lemma report_army_resources_success:
  assumes "status run = OPTIMAL" and "report_army_resources DATA units run = Inr out"
  shows "success_printed out"
proof -
  from assms have "\<exists>rest. out = solution_header # rest"
    by (simp add: report_army_resources_def err_bind_Inr) blast
  then obtain rest where "out = solution_header # rest" ..
  then show ?thesis by (simp add: success_printed_def)
qed

text \<open>
  Claim C10. Every optimisation cell (the two hand-written three-unit cells, the four
  \<^verbatim>\<open>solve_army\<close> versions through their two report shapes, and the ration cell) takes
  its success branch exactly when the status is \<^verbatim>\<open>OPTIMAL\<close>; with the status
  \<^verbatim>\<open>FEASIBLE\<close> each of them prints its failure line. The satisfiability cell (army size)
  takes its success branch exactly when the status is \<^verbatim>\<open>OPTIMAL\<close> or \<^verbatim>\<open>FEASIBLE\<close>.
\<close>

theorem success_branch_statuses:
  "(success_printed (report_three_units label run) \<longleftrightarrow> status run = OPTIMAL) \<and>
   (success_printed (report_army units run) \<longleftrightarrow> status run = OPTIMAL) \<and>
   (report_army_resources DATA units run = Inr out \<longrightarrow>
      (success_printed out \<longleftrightarrow> status run = OPTIMAL)) \<and>
   (cp_success_printed (report_ration crun) \<longleftrightarrow> cp_status_of crun = cp_OPTIMAL) \<and>
   (status run = FEASIBLE \<longrightarrow>
      report_three_units label run = [no_optimal_line] \<and>
      report_army units run = [no_optimal_line] \<and>
      report_army_resources DATA units run = Inr [no_optimal_line]) \<and>
   (cp_status_of crun = cp_FEASIBLE \<longrightarrow>
      report_ration crun = [CpText ''The solver could not find an optimal solution.'']) \<and>
   (cp_success_printed (report_army_size crun) \<longleftrightarrow>
      cp_status_of crun = cp_OPTIMAL \<or> cp_status_of crun = cp_FEASIBLE)"
proof (intro conjI impI)
  show "success_printed (report_three_units label run) \<longleftrightarrow> status run = OPTIMAL"
    by (simp add: report_three_units_def success_printed_def header_is_not_failure)
  show "success_printed (report_army units run) \<longleftrightarrow> status run = OPTIMAL"
    by (simp add: report_army_def success_printed_def header_is_not_failure)
  show "success_printed out \<longleftrightarrow> status run = OPTIMAL"
    if out: "report_army_resources DATA units run = Inr out"
  proof (cases "status run = OPTIMAL")
    case True
    with out show ?thesis by (simp add: report_army_resources_success)
  next
    case False
    with out have "out = [no_optimal_line]"
      by (simp add: report_army_resources_failure)
    with False show ?thesis
      by (simp add: success_printed_def header_is_not_failure)
  qed
  show "cp_success_printed (report_ration crun) \<longleftrightarrow> cp_status_of crun = cp_OPTIMAL"
    by (simp add: report_ration_def cp_success_printed_def cp_solution_header_def)
  show "report_three_units label run = [no_optimal_line]" if "status run = FEASIBLE"
    using that by (simp add: report_three_units_def)
  show "report_army units run = [no_optimal_line]" if "status run = FEASIBLE"
    using that by (simp add: report_army_def)
  show "report_army_resources DATA units run = Inr [no_optimal_line]" if "status run = FEASIBLE"
    using that by (simp add: report_army_resources_failure)
  show "report_ration crun = [CpText ''The solver could not find an optimal solution.'']"
    if "cp_status_of crun = cp_FEASIBLE"
    using that by (simp add: report_ration_def)
  show "cp_success_printed (report_army_size crun) \<longleftrightarrow>
      cp_status_of crun = cp_OPTIMAL \<or> cp_status_of crun = cp_FEASIBLE"
    by (simp add: report_army_size_def cp_success_printed_def cp_solution_header_def)
qed

text \<open>
  The theorem at an engine answer with status \<^verbatim>\<open>FEASIBLE\<close>: the report of the combined
  \<^verbatim>\<open>solve_army\<close> is the failure line, and so are the others.
\<close>

theorem success_branch_statuses_witness:
  "report_army_resources DATA10 (make_units UNITS10) (answer FEASIBLE 0 [] hand_written_model)
     = Inr [no_optimal_line] \<and>
   \<not> success_printed [no_optimal_line] \<and>
   report_army (make_units UNITS3) (answer FEASIBLE 0 [] hand_written_model) = [no_optimal_line] \<and>
   report_ration \<lparr>cp_status_of = cp_FEASIBLE, cp_value = (\<lambda>v. 0), cp_wall_time = 0\<rparr> =
     [CpText ''The solver could not find an optimal solution.'']"
proof -
  let ?run = "answer FEASIBLE 0 [] hand_written_model"
  let ?crun = "\<lparr>cp_status_of = cp_FEASIBLE, cp_value = (\<lambda>v. 0), cp_wall_time = 0\<rparr>"
  have s: "status ?run = FEASIBLE" by (simp add: answer_def)
  have cs: "cp_status_of ?crun = cp_FEASIBLE" by simp
  have r: "report_army_resources DATA10 (make_units UNITS10) ?run = Inr [no_optimal_line]"
    using s by (simp add: report_army_resources_failure)
  note t = success_branch_statuses[of "''Optimal value''" ?run "make_units UNITS3" DATA10
      "[no_optimal_line]" ?crun]
  from t s have a: "report_army (make_units UNITS3) ?run = [no_optimal_line]"
    by blast
  from success_branch_statuses[of "''Optimal value''" ?run "make_units UNITS10" DATA10
      "[no_optimal_line]" ?crun] r s
  have b: "\<not> success_printed [no_optimal_line]"
    by simp
  from t cs have c: "report_ration ?crun =
     [CpText ''The solver could not find an optimal solution.'']"
    by blast
  from r a b c show ?thesis by blast
qed

section \<open>The constraint models: army size and rations\<close>

lemma singleton_domain: "list_all2 P [v] xs \<longleftrightarrow> (\<exists>x. xs = [x] \<and> P v x)"
  by (auto simp: list_all2_Cons1)

lemma triple_domain:
  "list_all2 P [u, v, w] xs \<longleftrightarrow> (\<exists>a b c. xs = [a, b, c] \<and> P u a \<and> P v b \<and> P w c)"
  by (auto simp: list_all2_Cons1)

lemma army_size_feasible_iff:
  "cp_feasible army_size_model xs \<longleftrightarrow>
     (\<exists>x. xs = [x] \<and> 1 \<le> x \<and> x \<le> 10000 \<and> x mod 13 = 0 \<and> x mod 19 = 0 \<and> x mod 37 = 0)"
  unfolding cp_feasible_def army_size_model_def
  by (auto simp: singleton_domain cp_in_domain_def)

lemma common_multiple_in_range:
  fixes x :: int
  assumes "1 \<le> x" "x \<le> 10000" "x mod 13 = 0" "x mod 19 = 0" "x mod 37 = 0"
  shows "x = 9139"
proof -
  from assms have "13 dvd x" "19 dvd x" "37 dvd x"
    by (simp_all add: mod_eq_0_iff_dvd)
  then obtain a b d where "x = 13 * a" "x = 19 * b" "x = 37 * d"
    by (elim dvdE)
  note eqs = this
  have "247 * (3 * b - 2 * a) = 39 * (19 * b) - 38 * (13 * a)"
    by simp
  also have "\<dots> = x"
    unfolding eqs(1)[symmetric] eqs(2)[symmetric] by simp
  finally have c: "247 * (3 * b - 2 * a) = x" .
  have "9139 * (3 * d - 20 * (3 * b - 2 * a)) = 741 * (37 * d) - 740 * (247 * (3 * b - 2 * a))"
    by simp
  also have "\<dots> = x"
    unfolding eqs(3)[symmetric] c by simp
  finally have k: "x = 9139 * (3 * d - 20 * (3 * b - 2 * a))"
    by simp
  define q where "q = 3 * d - 20 * (3 * b - 2 * a)"
  from k have kq: "x = 9139 * q" by (simp add: q_def)
  with assms(1,2) have "q = 1" by linarith
  with kq show ?thesis by simp
qed

text \<open>
  Claim C3. In the model with the single variable \<open>army\<close> in \<open>[1, 10000]\<close> and the
  constraints \<open>army % 13 = 0\<close>, \<open>army % 19 = 0\<close>, \<open>army % 37 = 0\<close>, an assignment is
  feasible exactly when it gives \<open>army\<close> the value 9139.
\<close>

theorem army_size_unique: "cp_feasible army_size_model xs \<longleftrightarrow> xs = [9139]"
proof
  assume "cp_feasible army_size_model xs"
  then have "\<exists>x. xs = [x] \<and> 1 \<le> x \<and> x \<le> 10000 \<and> x mod 13 = 0 \<and> x mod 19 = 0 \<and> x mod 37 = 0"
    by (simp only: army_size_feasible_iff)
  then obtain x where xs: "xs = [x]"
    and x: "1 \<le> x" "x \<le> 10000" "x mod 13 = 0" "x mod 19 = 0" "x mod 37 = 0"
    by (elim exE conjE)
  from x have "x = 9139"
    by (rule common_multiple_in_range)
  with xs show "xs = [9139]"
    by (simp only:)
next
  assume xs: "xs = [9139]"
  have "\<exists>x::int. [9139] = [x] \<and> 1 \<le> x \<and> x \<le> 10000 \<and> x mod 13 = 0 \<and> x mod 19 = 0 \<and> x mod 37 = 0"
    by (rule exI[of _ 9139]) simp
  then show "cp_feasible army_size_model xs"
    by (simp only: xs army_size_feasible_iff)
qed

lemma ration_feasible_iff:
  "cp_feasible (ration_model c) xs \<longleftrightarrow>
     (\<exists>b m e. xs = [b, m, e] \<and> 0 \<le> b \<and> b \<le> c \<and> 0 \<le> m \<and> m \<le> c \<and> 0 \<le> e \<and> e \<le> c \<and>
        b + 3 * m + 7 * e \<le> c)"
  unfolding cp_feasible_def ration_model_def ration_variables_def
  by (auto simp: triple_domain cp_in_domain_def dot_def)

lemma ration_count_feasible_iff:
  "cp_feasible (ration_count_model c) xs \<longleftrightarrow>
     (\<exists>b m e. xs = [b, m, e] \<and> 0 \<le> b \<and> b \<le> c \<and> 0 \<le> m \<and> m \<le> c \<and> 0 \<le> e \<and> e \<le> c \<and>
        b + 3 * m + 7 * e \<le> c)"
  unfolding cp_feasible_def ration_count_model_def ration_variables_def
  by (auto simp: triple_domain cp_in_domain_def dot_def)

lemma ration_objective: "cp_objective (ration_model c) [b, m, e] = 3 * b + 10 * m + 26 * e"
  by (simp add: cp_objective_def ration_model_def dot_def)

lemma ration_bound:
  fixes b m e :: int
  assumes "0 \<le> b" "0 \<le> m" "0 \<le> e" "b + 3 * m + 7 * e \<le> 19"
  shows "3 * b + 10 * m + 26 * e \<le> 68"
proof -
  from assms have "e = 0 \<or> e = 1 \<or> e = 2" by arith
  then consider "e = 0" | "e = 1" | "e = 2" by blast
  then have "m + 5 * e \<le> 11"
  proof cases
    case 1 with assms show ?thesis by arith
  next
    case 2 with assms show ?thesis by arith
  next
    case 3 with assms show ?thesis by arith
  qed
  with assms show ?thesis by arith
qed

text \<open>
  Claim C4. In the ration model (\<open>bread\<close>, \<open>meat\<close>, \<open>beer\<close> in \<open>[0, 19]\<close>,
  \<open>1 * bread + 3 * meat + 7 * beer \<le> 19\<close>, maximise \<open>3 * bread + 10 * meat + 26 * beer\<close>)
  the optimal objective value is 68: some feasible assignment reaches it and none
  exceeds it.
\<close>

theorem ration_optimum: "cp_optimal_value (ration_model capacity) 68"
  unfolding cp_optimal_value_def
proof (intro conjI allI impI)
  have "cp_feasible (ration_model capacity) [2, 1, 2]"
    by (simp add: ration_feasible_iff capacity_def)
  moreover have "cp_objective (ration_model capacity) [2, 1, 2] = 68"
    by (simp add: ration_objective)
  ultimately show "\<exists>xs. cp_feasible (ration_model capacity) xs \<and> cp_objective (ration_model capacity) xs = 68"
    by blast
next
  fix ys
  assume "cp_feasible (ration_model capacity) ys"
  then obtain b m e where ys: "ys = [b, m, e]"
    and bme: "0 \<le> b" "0 \<le> m" "0 \<le> e" "b + 3 * m + 7 * e \<le> 19"
    unfolding ration_feasible_iff capacity_def by blast
  from bme have "3 * b + 10 * m + 26 * e \<le> 68"
    by (rule ration_bound)
  then show "cp_objective (ration_model capacity) ys \<le> 68"
    by (simp add: ys ration_objective)
qed

text \<open>
  The theorem at two feasible assignments: the notebook's printed optimum
  (2 bread, 1 meat, 2 beer) has the value 68, and 1 bread with 6 meat stays below it.
\<close>

theorem ration_optimum_witness:
  "cp_feasible (ration_model capacity) [2, 1, 2] \<and>
   cp_objective (ration_model capacity) [2, 1, 2] = 68 \<and>
   cp_feasible (ration_model capacity) [1, 6, 0] \<and>
   cp_objective (ration_model capacity) [1, 6, 0] \<le> 68"
proof -
  have a: "cp_feasible (ration_model capacity) [2, 1, 2]"
    by (simp add: ration_feasible_iff capacity_def)
  have b: "cp_objective (ration_model capacity) [2, 1, 2] = 68"
    by (simp add: ration_objective)
  have c: "cp_feasible (ration_model capacity) [1, 6, 0]"
    by (simp add: ration_feasible_iff capacity_def)
  from ration_optimum c have d: "cp_objective (ration_model capacity) [1, 6, 0] \<le> 68"
    unfolding cp_optimal_value_def by blast
  from a b c d show ?thesis by blast
qed

subsection \<open>Counting the feasible rations\<close>

lemma all_solutions_set: "set (all_solutions m) = {xs. cp_feasible m xs}"
proof -
  have "list_all2 (\<lambda>x ys. x \<in> set ys) xs (map (\<lambda>v. [cp_lb v..cp_ub v]) vs) \<longleftrightarrow>
        list_all2 cp_in_domain vs xs" for xs vs
    by (auto simp: list_all2_map2 cp_in_domain_def list_all2_conv_all_nth)
  then show ?thesis
    by (auto simp: all_solutions_def product_lists_set cp_feasible_def)
qed

lemma all_solutions_distinct: "distinct (all_solutions m)"
  unfolding all_solutions_def
  by (intro distinct_filter distinct_product_lists) auto

lemma callbacks_count:
  "solution_count (fold (\<lambda>sol self. on_solution_callback self) sols cb) =
     solution_count cb + length sols"
  by (induction sols arbitrary: cb) (simp_all add: solution_count_def on_solution_callback_def)

lemma Solve_with_callback_count:
  "solution_count (Solve_with_callback m CountSolutions_init) = card {xs. cp_feasible m xs}"
proof -
  have "solution_count (Solve_with_callback m CountSolutions_init) = length (all_solutions m)"
    unfolding Solve_with_callback_def callbacks_count
    by (simp add: solution_count_def CountSolutions_init_def)
  also have "\<dots> = card (set (all_solutions m))"
    by (simp add: distinct_card all_solutions_distinct)
  finally show ?thesis by (simp only: all_solutions_set)
qed

lemma sum_int_interval: "(\<Sum>i\<in>{a..b::int}. f i) = sum_list (map f [a..b])"
  using sum.distinct_set_conv_list[of "[a..b]" f] by simp

lemma card_ration_triples:
  "card (SIGMA e:{0..2::int}. SIGMA m:{0..(19 - 7 * e) div 3}. {0..19 - 3 * m - 7 * e}) = 121"
proof -
  have "card (SIGMA e:{0..2::int}. SIGMA m:{0..(19 - 7 * e) div 3}. {0..19 - 3 * m - 7 * e})
      = (\<Sum>e\<in>{0..2::int}. \<Sum>m\<in>{0..(19 - 7 * e) div 3}. nat (19 - 3 * m - 7 * e + 1))"
    by simp
  also have "\<dots> = 121"
    by (simp add: sum_int_interval upto_rec1)
  finally show ?thesis .
qed

lemma in_ration_triples:
  "(e, m, b) \<in> (SIGMA e:{0..2::int}. SIGMA m:{0..(19 - 7 * e) div 3}. {0..19 - 3 * m - 7 * e}) \<longleftrightarrow>
     0 \<le> b \<and> b \<le> 19 \<and> 0 \<le> m \<and> m \<le> 19 \<and> 0 \<le> e \<and> e \<le> 19 \<and> b + 3 * m + 7 * e \<le> 19"
proof
  assume "(e, m, b) \<in> (SIGMA e:{0..2::int}. SIGMA m:{0..(19 - 7 * e) div 3}. {0..19 - 3 * m - 7 * e})"
  then have e: "0 \<le> e" "e \<le> 2" and m: "0 \<le> m" "m \<le> (19 - 7 * e) div 3"
    and b: "0 \<le> b" "b \<le> 19 - 3 * m - 7 * e"
    by simp_all
  from e have "e = 0 \<or> e = 1 \<or> e = 2" by arith
  with m have "3 * m \<le> 19 - 7 * e" by auto
  with e m b show "0 \<le> b \<and> b \<le> 19 \<and> 0 \<le> m \<and> m \<le> 19 \<and> 0 \<le> e \<and> e \<le> 19 \<and> b + 3 * m + 7 * e \<le> 19"
    by arith
next
  assume a: "0 \<le> b \<and> b \<le> 19 \<and> 0 \<le> m \<and> m \<le> 19 \<and> 0 \<le> e \<and> e \<le> 19 \<and> b + 3 * m + 7 * e \<le> 19"
  then have "e = 0 \<or> e = 1 \<or> e = 2" by arith
  then have "m \<le> (19 - 7 * e) div 3" using a by auto
  with a show "(e, m, b) \<in> (SIGMA e:{0..2::int}. SIGMA m:{0..(19 - 7 * e) div 3}. {0..19 - 3 * m - 7 * e})"
    by simp
qed

text \<open>
  Claim C5. The assignments of integers in \<open>[0, 19]\<close> to \<open>bread\<close>, \<open>meat\<close>, \<open>beer\<close> with
  \<open>1 * bread + 3 * meat + 7 * beer \<le> 19\<close> are exactly 121, and this is the number that
  the \<^verbatim>\<open>CountSolutions\<close> callback has counted when every solution was handed to it once.
\<close>

theorem ration_solution_count:
  "card {xs. cp_feasible (ration_count_model capacity) xs} = 121 \<and>
   solution_count (Solve_with_callback (ration_count_model capacity) CountSolutions_init) = 121"
proof -
  define T where "T = (SIGMA e:{0..2::int}. SIGMA m:{0..(19 - 7 * e) div 3}. {0..19 - 3 * m - 7 * e})"
  have in_T: "(e, m, b) \<in> T \<longleftrightarrow>
      0 \<le> b \<and> b \<le> 19 \<and> 0 \<le> m \<and> m \<le> 19 \<and> 0 \<le> e \<and> e \<le> 19 \<and> b + 3 * m + 7 * e \<le> 19" for e m b
    unfolding T_def by (rule in_ration_triples)
  define triple_list where "triple_list = (\<lambda>t :: int \<times> int \<times> int. case t of (e, m, b) \<Rightarrow> [b, m, e])"
  have card_T: "card T = 121"
    unfolding T_def by (rule card_ration_triples)
  have "{xs. cp_feasible (ration_count_model capacity) xs} = triple_list ` T"
  proof (intro set_eqI iffI)
    fix xs
    assume "xs \<in> {xs. cp_feasible (ration_count_model capacity) xs}"
    then obtain b m e where xs: "xs = [b, m, e]"
      and "0 \<le> b \<and> b \<le> 19 \<and> 0 \<le> m \<and> m \<le> 19 \<and> 0 \<le> e \<and> e \<le> 19 \<and> b + 3 * m + 7 * e \<le> 19"
      unfolding mem_Collect_eq ration_count_feasible_iff capacity_def by blast
    then have "(e, m, b) \<in> T"
      by (simp only: in_T)
    moreover have "xs = triple_list (e, m, b)"
      by (simp add: xs triple_list_def)
    ultimately show "xs \<in> triple_list ` T" by (rule_tac image_eqI)
  next
    fix xs
    assume "xs \<in> triple_list ` T"
    then obtain t where t: "t \<in> T" and xs: "xs = triple_list t"
      by blast
    obtain e m b where emb: "t = (e, m, b)"
      by (cases t) auto
    from t have "0 \<le> b \<and> b \<le> 19 \<and> 0 \<le> m \<and> m \<le> 19 \<and> 0 \<le> e \<and> e \<le> 19 \<and> b + 3 * m + 7 * e \<le> 19"
      by (simp only: emb in_T)
    moreover have "xs = [b, m, e]"
      by (simp add: xs emb triple_list_def)
    ultimately show "xs \<in> {xs. cp_feasible (ration_count_model capacity) xs}"
      unfolding mem_Collect_eq ration_count_feasible_iff capacity_def by blast
  qed
  moreover have "inj_on triple_list T"
    by (auto simp: inj_on_def triple_list_def)
  ultimately have "card {xs. cp_feasible (ration_count_model capacity) xs} = card T"
    by (simp only: card_image)
  then have c: "card {xs. cp_feasible (ration_count_model capacity) xs} = 121"
    by (simp only: card_T)
  then show ?thesis
    by (simp only: Solve_with_callback_count)
qed

section \<open>Relaxing the capacities\<close>

lemma pair_domain:
  "list_all2 P [u, v] xs \<longleftrightarrow> (\<exists>a b. xs = [a, b] \<and> P u a \<and> P v b)"
  by (auto simp: list_all2_Cons1)

lemma feasible_units1:
  "feasible \<lparr>variables = make_units [n], constraints = cs, obj_coeffs = oc, obj_dir = d\<rparr> xs \<longleftrightarrow>
     (\<exists>x. xs = [x] \<and> 0 \<le> x \<and> list_all (\<lambda>c. row_holds c [x]) cs)"
  by (auto simp: feasible_def make_units_def singleton_domain in_domain_def)

lemma feasible_units2:
  "feasible \<lparr>variables = make_units [n, n'], constraints = cs, obj_coeffs = oc, obj_dir = d\<rparr> xs \<longleftrightarrow>
     (\<exists>x y. xs = [x, y] \<and> 0 \<le> x \<and> 0 \<le> y \<and> list_all (\<lambda>c. row_holds c [x, y]) cs)"
  by (auto simp: feasible_def make_units_def pair_domain in_domain_def)

lemma optimal_value_max_mono:
  assumes sub: "\<And>xs. feasible m xs \<Longrightarrow> feasible m' xs"
    and obj: "obj_coeffs m' = obj_coeffs m" and dir: "obj_dir m' = Maximize"
    and v: "optimal_value m v" and v': "optimal_value m' v'"
  shows "v \<le> v'"
proof -
  from v obtain xs where xs: "feasible m xs" "objective m xs = v"
    unfolding optimal_value_def by blast
  from xs(1) have "feasible m' xs" by (rule sub)
  with v' have "as_good (obj_dir m') v' (objective m' xs)"
    unfolding optimal_value_def by blast
  then have "objective m' xs \<le> v'"
    by (simp add: dir as_good_def)
  moreover have "objective m' xs = v"
    using xs(2) by (simp add: objective_def obj)
  ultimately show ?thesis by simp
qed

lemma optimal_value_min_mono:
  assumes sub: "\<And>xs. feasible m xs \<Longrightarrow> feasible m' xs"
    and obj: "obj_coeffs m' = obj_coeffs m" and dir: "obj_dir m' = Minimize"
    and v: "optimal_value m v" and v': "optimal_value m' v'"
  shows "v' \<le> v"
proof -
  from v obtain xs where xs: "feasible m xs" "objective m xs = v"
    unfolding optimal_value_def by blast
  from xs(1) have "feasible m' xs" by (rule sub)
  with v' have "as_good (obj_dir m') v' (objective m' xs)"
    unfolding optimal_value_def by blast
  then have "v' \<le> objective m' xs"
    by (simp add: dir as_good_def)
  moreover have "objective m' xs = v"
    using xs(2) by (simp add: objective_def obj)
  ultimately show ?thesis by simp
qed

lemma resource_constraints_relax:
  assumes c: "resource_constraints DATA R n = Inr cons"
    and c': "resource_constraints DATA R' n = Inr cons'"
    and le: "list_all2 (\<le>) R R'"
    and holds: "list_all (\<lambda>c. row_holds c xs) cons"
  shows "list_all (\<lambda>c. row_holds c xs) cons'"
  unfolding list_all_length
proof (intro allI impI)
  fix r
  assume "r < length cons'"
  from le have len: "length R = length R'"
    by (rule list_all2_lengthD)
  from c' have "length cons' = length R'"
    by (simp add: resource_constraints_Inr)
  with \<open>r < length cons'\<close> len have r: "r < length R" "r < length R'"
    by simp_all
  from c r(1) obtain cs where cs: "unit_sum n (\<lambda>u. entry DATA u (int r)) = Inr cs"
    and row: "cons ! r = \<lparr>coeffs = cs, row_sense = LE, rhs = R ! r\<rparr>"
    unfolding resource_constraints_Inr by blast
  from c' r(2) obtain cs' where cs': "unit_sum n (\<lambda>u. entry DATA u (int r)) = Inr cs'"
    and row': "cons' ! r = \<lparr>coeffs = cs', row_sense = LE, rhs = R' ! r\<rparr>"
    unfolding resource_constraints_Inr by blast
  from cs cs' have same: "cs' = cs" by simp
  from c have "length cons = length R"
    by (simp add: resource_constraints_Inr)
  with holds r(1) have "row_holds (cons ! r) xs"
    by (simp add: list_all_length)
  then have "dot cs xs \<le> R ! r"
    by (simp add: row row_holds_def)
  moreover from le r(1) have "R ! r \<le> R' ! r"
    by (simp add: list_all2_nthD)
  ultimately show "row_holds (cons' ! r) xs"
    by (simp add: row' same row_holds_def)
qed

lemma solve_army_power_model_Inr:
  "solve_army_power_model UNITS DATA RESOURCES = Inr m \<longleftrightarrow>
     (\<exists>cons obj. resource_constraints DATA RESOURCES (length UNITS) = Inr cons \<and>
        unit_sum (length UNITS) (unit_power DATA) = Inr obj \<and> list_all fits obj \<and>
        m = \<lparr>variables = make_units UNITS, constraints = cons, obj_coeffs = obj, obj_dir = Maximize\<rparr>)"
  unfolding solve_army_power_model_def Let_def err_bind_Inr solver_objective_Inr
  by (auto simp: make_units_def)

lemma power_constraints_length_only:
  "length R = length R' \<Longrightarrow> power_constraints DATA R n = power_constraints DATA R' n"
  by (simp add: power_constraints_def)

lemma solve_army_model_relax:
  assumes m: "solve_army_model UNITS DATA R = Inr m" and m': "solve_army_model UNITS DATA R' = Inr m'"
    and le: "list_all2 (\<le>) R R'"
  shows "obj_coeffs m' = obj_coeffs m \<and> obj_dir m' = Maximize \<and>
     (\<forall>xs. feasible m xs \<longrightarrow> feasible m' xs)"
proof -
  from m obtain cons obj where cons: "resource_constraints DATA R (length UNITS) = Inr cons"
    and obj: "trailing_values DATA (length UNITS) = Inr obj"
    and md: "m = \<lparr>variables = make_units UNITS, constraints = cons, obj_coeffs = obj, obj_dir = Maximize\<rparr>"
    unfolding solve_army_model_Inr by blast
  from m' obtain cons' obj' where cons': "resource_constraints DATA R' (length UNITS) = Inr cons'"
    and obj': "trailing_values DATA (length UNITS) = Inr obj'"
    and md': "m' = \<lparr>variables = make_units UNITS, constraints = cons', obj_coeffs = obj', obj_dir = Maximize\<rparr>"
    unfolding solve_army_model_Inr by blast
  from obj obj' have "obj' = obj" by simp
  moreover have "feasible m' xs" if "feasible m xs" for xs
    using that resource_constraints_relax[OF cons cons' le, of xs]
    by (simp add: feasible_def md md')
  ultimately show ?thesis by (simp add: md md')
qed

lemma solve_army_power_model_relax:
  assumes m: "solve_army_power_model UNITS DATA R = Inr m"
    and m': "solve_army_power_model UNITS DATA R' = Inr m'"
    and le: "list_all2 (\<le>) R R'"
  shows "obj_coeffs m' = obj_coeffs m \<and> obj_dir m' = Maximize \<and>
     (\<forall>xs. feasible m xs \<longrightarrow> feasible m' xs)"
proof -
  from m obtain cons obj where cons: "resource_constraints DATA R (length UNITS) = Inr cons"
    and obj: "unit_sum (length UNITS) (unit_power DATA) = Inr obj"
    and md: "m = \<lparr>variables = make_units UNITS, constraints = cons, obj_coeffs = obj, obj_dir = Maximize\<rparr>"
    unfolding solve_army_power_model_Inr by blast
  from m' obtain cons' obj' where cons': "resource_constraints DATA R' (length UNITS) = Inr cons'"
    and obj': "unit_sum (length UNITS) (unit_power DATA) = Inr obj'"
    and md': "m' = \<lparr>variables = make_units UNITS, constraints = cons', obj_coeffs = obj', obj_dir = Maximize\<rparr>"
    unfolding solve_army_power_model_Inr by blast
  from obj obj' have "obj' = obj" by simp
  moreover have "feasible m' xs" if "feasible m xs" for xs
    using that resource_constraints_relax[OF cons cons' le, of xs]
    by (simp add: feasible_def md md')
  ultimately show ?thesis by (simp add: md md')
qed

lemma solve_army_combined_model_relax:
  assumes m: "solve_army_combined_model UNITS DATA R = Inr m"
    and m': "solve_army_combined_model UNITS DATA R' = Inr m'"
    and le: "list_all2 (\<le>) R R'"
  shows "obj_coeffs m' = obj_coeffs m \<and> obj_dir m' = Minimize \<and>
     (\<forall>xs. feasible m xs \<longrightarrow> feasible m' xs)"
proof -
  from m obtain pcs cons obj where pcs: "power_constraints DATA R (length UNITS) = Inr pcs"
    and cons: "resource_constraints DATA R (length UNITS) = Inr cons"
    and obj: "unit_sum (length UNITS) (unit_cost DATA) = Inr obj"
    and md: "m = \<lparr>variables = make_units UNITS, constraints = pcs @ cons, obj_coeffs = obj, obj_dir = Minimize\<rparr>"
    unfolding solve_army_combined_model_Inr by blast
  from m' obtain pcs' cons' obj' where pcs': "power_constraints DATA R' (length UNITS) = Inr pcs'"
    and cons': "resource_constraints DATA R' (length UNITS) = Inr cons'"
    and obj': "unit_sum (length UNITS) (unit_cost DATA) = Inr obj'"
    and md': "m' = \<lparr>variables = make_units UNITS, constraints = pcs' @ cons', obj_coeffs = obj', obj_dir = Minimize\<rparr>"
    unfolding solve_army_combined_model_Inr by blast
  from obj obj' have same_obj: "obj' = obj" by simp
  from le have "length R = length R'" by (rule list_all2_lengthD)
  with pcs pcs' have same_pcs: "pcs' = pcs"
    by (simp add: power_constraints_length_only[of R R'])
  have "feasible m' xs" if "feasible m xs" for xs
    using that resource_constraints_relax[OF cons cons' le, of xs] same_pcs
    by (simp add: feasible_def md md')
  with same_obj show ?thesis by (simp add: md md')
qed

lemma ration_model_relax:
  assumes "c \<le> c'" and "cp_feasible (ration_model c) xs"
  shows "cp_feasible (ration_model c') xs \<and> cp_objective (ration_model c') xs = cp_objective (ration_model c) xs"
proof -
  from assms(2) obtain b m e where xs: "xs = [b, m, e]"
    and "0 \<le> b \<and> b \<le> c \<and> 0 \<le> m \<and> m \<le> c \<and> 0 \<le> e \<and> e \<le> c \<and> b + 3 * m + 7 * e \<le> c"
    unfolding ration_feasible_iff by blast
  with assms(1) have "0 \<le> b \<and> b \<le> c' \<and> 0 \<le> m \<and> m \<le> c' \<and> 0 \<le> e \<and> e \<le> c' \<and> b + 3 * m + 7 * e \<le> c'"
    by linarith
  then have "cp_feasible (ration_model c') xs"
    unfolding ration_feasible_iff xs by blast
  then show ?thesis by (simp add: xs ration_objective)
qed

text \<open>
  Claim C6, as amended. For the maximising models (the first \<^verbatim>\<open>solve_army\<close>, the
  second one with the power objective, and the ration model), when the capacities
  are increased componentwise (for the ration model: the capacity, which is also the
  upper bound of every variable) and both models have an optimal value, the optimal
  value of the enlarged model is greater than or equal to that of the original one.
  For the combined \<^verbatim>\<open>solve_army\<close>, which minimises, the optimal value of the enlarged
  model is less than or equal to that of the original one.
\<close>

theorem relaxing_capacities:
  "(solve_army_model UNITS DATA R = Inr m \<and> solve_army_model UNITS DATA R' = Inr m' \<and>
      list_all2 (\<le>) R R' \<and> optimal_value m v \<and> optimal_value m' v' \<longrightarrow> v \<le> v') \<and>
   (solve_army_power_model UNITS DATA R = Inr p \<and> solve_army_power_model UNITS DATA R' = Inr p' \<and>
      list_all2 (\<le>) R R' \<and> optimal_value p pv \<and> optimal_value p' pv' \<longrightarrow> pv \<le> pv') \<and>
   (c \<le> c' \<and> cp_optimal_value (ration_model c) w \<and> cp_optimal_value (ration_model c') w'
      \<longrightarrow> w \<le> w') \<and>
   (solve_army_combined_model UNITS2 DATA2 S = Inr n \<and> solve_army_combined_model UNITS2 DATA2 S' = Inr n' \<and>
      list_all2 (\<le>) S S' \<and> optimal_value n z \<and> optimal_value n' z' \<longrightarrow> z' \<le> z)"
proof (intro conjI impI)
  assume a: "solve_army_model UNITS DATA R = Inr m \<and> solve_army_model UNITS DATA R' = Inr m' \<and>
      list_all2 (\<le>) R R' \<and> optimal_value m v \<and> optimal_value m' v'"
  then have h: "solve_army_model UNITS DATA R = Inr m" "solve_army_model UNITS DATA R' = Inr m'"
    "list_all2 (\<le>) R R'" "optimal_value m v" "optimal_value m' v'"
    by simp_all
  note rel = solve_army_model_relax[OF h(1) h(2) h(3)]
  from rel have sub: "\<And>xs. feasible m xs \<Longrightarrow> feasible m' xs"
    and obj: "obj_coeffs m' = obj_coeffs m" and dir: "obj_dir m' = Maximize"
    by blast+
  from sub obj dir h(4) h(5) show "v \<le> v'"
    by (rule optimal_value_max_mono)
next
  assume a: "solve_army_power_model UNITS DATA R = Inr p \<and> solve_army_power_model UNITS DATA R' = Inr p' \<and>
      list_all2 (\<le>) R R' \<and> optimal_value p pv \<and> optimal_value p' pv'"
  then have h: "solve_army_power_model UNITS DATA R = Inr p" "solve_army_power_model UNITS DATA R' = Inr p'"
    "list_all2 (\<le>) R R'" "optimal_value p pv" "optimal_value p' pv'"
    by simp_all
  note rel = solve_army_power_model_relax[OF h(1) h(2) h(3)]
  from rel have sub: "\<And>xs. feasible p xs \<Longrightarrow> feasible p' xs"
    and obj: "obj_coeffs p' = obj_coeffs p" and dir: "obj_dir p' = Maximize"
    by blast+
  from sub obj dir h(4) h(5) show "pv \<le> pv'"
    by (rule optimal_value_max_mono)
next
  assume a: "c \<le> c' \<and> cp_optimal_value (ration_model c) w \<and> cp_optimal_value (ration_model c') w'"
  then obtain xs where xs: "cp_feasible (ration_model c) xs" "cp_objective (ration_model c) xs = w"
    unfolding cp_optimal_value_def by blast
  from a have "c \<le> c'" by simp
  from ration_model_relax[OF this xs(1)] have f: "cp_feasible (ration_model c') xs"
    and o: "cp_objective (ration_model c') xs = cp_objective (ration_model c) xs"
    by simp_all
  from a have "\<forall>ys. cp_feasible (ration_model c') ys \<longrightarrow> cp_objective (ration_model c') ys \<le> w'"
    unfolding cp_optimal_value_def by simp
  with f have "cp_objective (ration_model c') xs \<le> w'"
    by blast
  with o xs(2) show "w \<le> w'"
    by simp
next
  assume a: "solve_army_combined_model UNITS2 DATA2 S = Inr n \<and> solve_army_combined_model UNITS2 DATA2 S' = Inr n' \<and>
      list_all2 (\<le>) S S' \<and> optimal_value n z \<and> optimal_value n' z'"
  then have h: "solve_army_combined_model UNITS2 DATA2 S = Inr n" "solve_army_combined_model UNITS2 DATA2 S' = Inr n'"
    "list_all2 (\<le>) S S'" "optimal_value n z" "optimal_value n' z'"
    by simp_all
  note rel = solve_army_combined_model_relax[OF h(1) h(2) h(3)]
  from rel have sub: "\<And>xs. feasible n xs \<Longrightarrow> feasible n' xs"
    and obj: "obj_coeffs n' = obj_coeffs n" and dir: "obj_dir n' = Minimize"
    by blast+
  from sub obj dir h(4) h(5) show "z' \<le> z"
    by (rule optimal_value_min_mono)
qed
text \<open>
  Small models with known optimal values: one unit with the row \<open>[1, 0, 1]\<close> under the
  capacities \<open>[0]\<close> and \<open>[1]\<close>; the ration model with the capacities 0 and 1; and the
  combined model of two units, one cheap and using the first resource, the other
  dearer and using none of it, under the capacities \<open>[0]\<close> and \<open>[1]\<close>.
\<close>

lemma one_unit_optimum:
  "optimal_value \<lparr>variables = make_units [''a''],
      constraints = [\<lparr>coeffs = [1], row_sense = LE, rhs = 0\<rparr>],
      obj_coeffs = [1], obj_dir = Maximize\<rparr> 0"
  "optimal_value \<lparr>variables = make_units [''a''],
      constraints = [\<lparr>coeffs = [1], row_sense = LE, rhs = 1\<rparr>],
      obj_coeffs = [1], obj_dir = Maximize\<rparr> 1"
proof -
  show "optimal_value \<lparr>variables = make_units [''a''],
      constraints = [\<lparr>coeffs = [1], row_sense = LE, rhs = 0\<rparr>],
      obj_coeffs = [1], obj_dir = Maximize\<rparr> 0"
    unfolding optimal_value_def feasible_units1
    by (intro conjI exI[of _ "[0]"]) (auto simp: row_holds_def dot_def objective_def as_good_def)
  show "optimal_value \<lparr>variables = make_units [''a''],
      constraints = [\<lparr>coeffs = [1], row_sense = LE, rhs = 1\<rparr>],
      obj_coeffs = [1], obj_dir = Maximize\<rparr> 1"
    unfolding optimal_value_def feasible_units1
    by (intro conjI exI[of _ "[1]"]) (auto simp: row_holds_def dot_def objective_def as_good_def)
qed

lemma small_ration_optimum:
  "cp_optimal_value (ration_model 0) 0" "cp_optimal_value (ration_model 1) 3"
proof -
  show "cp_optimal_value (ration_model 0) 0"
    unfolding cp_optimal_value_def ration_feasible_iff
    by (intro conjI exI[of _ "[0, 0, 0]"]) (auto simp: ration_objective)
  show "cp_optimal_value (ration_model 1) 3"
    unfolding cp_optimal_value_def ration_feasible_iff
    by (intro conjI exI[of _ "[1, 0, 0]"]) (auto simp: ration_objective)
qed

lemma two_unit_optimum:
  "optimal_value \<lparr>variables = make_units [''a'', ''b''],
      constraints = [\<lparr>coeffs = [1000001, 1000001], row_sense = GE, rhs = 1000001\<rparr>,
                     \<lparr>coeffs = [1, 0], row_sense = LE, rhs = 0\<rparr>],
      obj_coeffs = [1, 2], obj_dir = Minimize\<rparr> 2"
  "optimal_value \<lparr>variables = make_units [''a'', ''b''],
      constraints = [\<lparr>coeffs = [1000001, 1000001], row_sense = GE, rhs = 1000001\<rparr>,
                     \<lparr>coeffs = [1, 0], row_sense = LE, rhs = 1\<rparr>],
      obj_coeffs = [1, 2], obj_dir = Minimize\<rparr> 1"
proof -
  show "optimal_value \<lparr>variables = make_units [''a'', ''b''],
      constraints = [\<lparr>coeffs = [1000001, 1000001], row_sense = GE, rhs = 1000001\<rparr>,
                     \<lparr>coeffs = [1, 0], row_sense = LE, rhs = 0\<rparr>],
      obj_coeffs = [1, 2], obj_dir = Minimize\<rparr> 2"
    unfolding optimal_value_def feasible_units2
    by (intro conjI exI[of _ "[0, 1]"]) (auto simp: row_holds_def dot_def objective_def as_good_def)
  show "optimal_value \<lparr>variables = make_units [''a'', ''b''],
      constraints = [\<lparr>coeffs = [1000001, 1000001], row_sense = GE, rhs = 1000001\<rparr>,
                     \<lparr>coeffs = [1, 0], row_sense = LE, rhs = 1\<rparr>],
      obj_coeffs = [1, 2], obj_dir = Minimize\<rparr> 1"
    unfolding optimal_value_def feasible_units2
    by (intro conjI exI[of _ "[1, 0]"]) (auto simp: row_holds_def dot_def objective_def as_good_def)
qed

lemma one_unit_models:
  "solve_army_model [''a''] [[1, 0, 1]] [0] =
     Inr \<lparr>variables = make_units [''a''],
          constraints = [\<lparr>coeffs = [1], row_sense = LE, rhs = 0\<rparr>],
          obj_coeffs = [1], obj_dir = Maximize\<rparr>"
  "solve_army_model [''a''] [[1, 0, 1]] [1] =
     Inr \<lparr>variables = make_units [''a''],
          constraints = [\<lparr>coeffs = [1], row_sense = LE, rhs = 1\<rparr>],
          obj_coeffs = [1], obj_dir = Maximize\<rparr>"
  "solve_army_power_model [''a''] [[1, 0, 1]] [0] =
     Inr \<lparr>variables = make_units [''a''],
          constraints = [\<lparr>coeffs = [1], row_sense = LE, rhs = 0\<rparr>],
          obj_coeffs = [1], obj_dir = Maximize\<rparr>"
  "solve_army_power_model [''a''] [[1, 0, 1]] [1] =
     Inr \<lparr>variables = make_units [''a''],
          constraints = [\<lparr>coeffs = [1], row_sense = LE, rhs = 1\<rparr>],
          obj_coeffs = [1], obj_dir = Maximize\<rparr>"
  by code_simp+

lemma two_unit_models:
  "solve_army_combined_model [''a'', ''b''] [[1, 0, 0, 0, 1000001], [0, 2, 0, 0, 1000001]] [0] =
     Inr \<lparr>variables = make_units [''a'', ''b''],
      constraints = [\<lparr>coeffs = [1000001, 1000001], row_sense = GE, rhs = 1000001\<rparr>,
                     \<lparr>coeffs = [1, 0], row_sense = LE, rhs = 0\<rparr>],
      obj_coeffs = [1, 2], obj_dir = Minimize\<rparr>"
  "solve_army_combined_model [''a'', ''b''] [[1, 0, 0, 0, 1000001], [0, 2, 0, 0, 1000001]] [1] =
     Inr \<lparr>variables = make_units [''a'', ''b''],
      constraints = [\<lparr>coeffs = [1000001, 1000001], row_sense = GE, rhs = 1000001\<rparr>,
                     \<lparr>coeffs = [1, 0], row_sense = LE, rhs = 1\<rparr>],
      obj_coeffs = [1, 2], obj_dir = Minimize\<rparr>"
  by code_simp+

text \<open>
  The theorem at these models: every hypothesis holds there, and the optimal values
  compare as stated (0 and 1 for the one-unit model, 0 and 3 for the rations, 2 and 1
  for the minimising combined model).
\<close>

theorem relaxing_capacities_witness:
  "solve_army_model [''a''] [[1, 0, 1]] [0] =
     Inr \<lparr>variables = make_units [''a''],
          constraints = [\<lparr>coeffs = [1], row_sense = LE, rhs = 0\<rparr>],
          obj_coeffs = [1], obj_dir = Maximize\<rparr> \<and>
   solve_army_model [''a''] [[1, 0, 1]] [1] =
     Inr \<lparr>variables = make_units [''a''],
          constraints = [\<lparr>coeffs = [1], row_sense = LE, rhs = 1\<rparr>],
          obj_coeffs = [1], obj_dir = Maximize\<rparr> \<and>
   list_all2 (\<le>) [0] [1 :: int] \<and>
   cp_optimal_value (ration_model 0) 0 \<and> cp_optimal_value (ration_model 1) 3 \<and>
   (0 :: int) \<le> 1 \<and> (0 :: int) \<le> 3 \<and> (1 :: int) \<le> 2"
proof -
  let ?A0 = "\<lparr>variables = make_units [''a''],
          constraints = [\<lparr>coeffs = [1], row_sense = LE, rhs = 0\<rparr>],
          obj_coeffs = [1], obj_dir = Maximize\<rparr>"
  let ?A1 = "\<lparr>variables = make_units [''a''],
          constraints = [\<lparr>coeffs = [1], row_sense = LE, rhs = 1\<rparr>],
          obj_coeffs = [1], obj_dir = Maximize\<rparr>"
  let ?M0 = "\<lparr>variables = make_units [''a'', ''b''],
      constraints = [\<lparr>coeffs = [1000001, 1000001], row_sense = GE, rhs = 1000001\<rparr>,
                     \<lparr>coeffs = [1, 0], row_sense = LE, rhs = 0\<rparr>],
      obj_coeffs = [1, 2], obj_dir = Minimize\<rparr>"
  let ?M1 = "\<lparr>variables = make_units [''a'', ''b''],
      constraints = [\<lparr>coeffs = [1000001, 1000001], row_sense = GE, rhs = 1000001\<rparr>,
                     \<lparr>coeffs = [1, 0], row_sense = LE, rhs = 1\<rparr>],
      obj_coeffs = [1, 2], obj_dir = Minimize\<rparr>"
  have le: "list_all2 (\<le>) [0] [1 :: int]" by simp
  have c: "(0 :: int) \<le> 1" by simp
  note t = relaxing_capacities[of "[''a'']" "[[1, 0, 1]]" "[0]" ?A0 "[1]" ?A1 0 1 ?A0 ?A1 0 1
      0 1 0 3 "[''a'', ''b'']" "[[1, 0, 0, 0, 1000001], [0, 2, 0, 0, 1000001]]" "[0]" ?M0 "[1]" ?M1 2 1]
  from t one_unit_models(1,2) le one_unit_optimum have a: "(0 :: int) \<le> 1"
    by blast
  from t c small_ration_optimum have b: "(0 :: int) \<le> 3"
    by blast
  from t two_unit_models le two_unit_optimum have d: "(1 :: int) \<le> 2"
    by blast
  from one_unit_models(1,2) le small_ration_optimum a b d show ?thesis
    by blast
qed

text \<open>
  Claim C6 as stated fails for the combined \<^verbatim>\<open>solve_army\<close>, which minimises. With the
  two units above, raising the capacity from \<open>[0]\<close> to \<open>[1]\<close> lets the cheap unit in and
  lowers the optimal value from 2 to 1.
\<close>

theorem relaxing_capacities_counterexample:
  "solve_army_combined_model [''a'', ''b''] [[1, 0, 0, 0, 1000001], [0, 2, 0, 0, 1000001]] [0] =
     Inr \<lparr>variables = make_units [''a'', ''b''],
      constraints = [\<lparr>coeffs = [1000001, 1000001], row_sense = GE, rhs = 1000001\<rparr>,
                     \<lparr>coeffs = [1, 0], row_sense = LE, rhs = 0\<rparr>],
      obj_coeffs = [1, 2], obj_dir = Minimize\<rparr> \<and>
   solve_army_combined_model [''a'', ''b''] [[1, 0, 0, 0, 1000001], [0, 2, 0, 0, 1000001]] [1] =
     Inr \<lparr>variables = make_units [''a'', ''b''],
      constraints = [\<lparr>coeffs = [1000001, 1000001], row_sense = GE, rhs = 1000001\<rparr>,
                     \<lparr>coeffs = [1, 0], row_sense = LE, rhs = 1\<rparr>],
      obj_coeffs = [1, 2], obj_dir = Minimize\<rparr> \<and>
   list_all2 (\<le>) [0] [1 :: int] \<and>
   optimal_value \<lparr>variables = make_units [''a'', ''b''],
      constraints = [\<lparr>coeffs = [1000001, 1000001], row_sense = GE, rhs = 1000001\<rparr>,
                     \<lparr>coeffs = [1, 0], row_sense = LE, rhs = 0\<rparr>],
      obj_coeffs = [1, 2], obj_dir = Minimize\<rparr> 2 \<and>
   optimal_value \<lparr>variables = make_units [''a'', ''b''],
      constraints = [\<lparr>coeffs = [1000001, 1000001], row_sense = GE, rhs = 1000001\<rparr>,
                     \<lparr>coeffs = [1, 0], row_sense = LE, rhs = 1\<rparr>],
      obj_coeffs = [1, 2], obj_dir = Minimize\<rparr> 1 \<and>
   \<not> (2 :: int) \<le> 1"
proof -
  have le: "list_all2 (\<le>) [0] [1 :: int]" by simp
  have n: "\<not> (2 :: int) \<le> 1" by simp
  from two_unit_models le two_unit_optimum n show ?thesis
    by blast
qed

section \<open>The power constraint inside the loop over the resources\<close>

lemma solve_army_once_model_Inr:
  "solve_army_once_model UNITS DATA RESOURCES = Inr m \<longleftrightarrow>
     (\<exists>pc cons obj. power_constraint DATA (length UNITS) = Inr pc \<and>
        resource_constraints DATA RESOURCES (length UNITS) = Inr cons \<and>
        unit_sum (length UNITS) (unit_cost DATA) = Inr obj \<and> list_all fits obj \<and>
        m = \<lparr>variables = make_units UNITS, constraints = pc # cons, obj_coeffs = obj, obj_dir = Minimize\<rparr>)"
  unfolding solve_army_once_model_def Let_def err_bind_Inr solver_objective_Inr
  by (auto simp: make_units_def)

lemma power_constraints_replicate:
  "power_constraints DATA RESOURCES n = Inr pcs \<longleftrightarrow>
     (RESOURCES = [] \<and> pcs = []) \<or>
     (RESOURCES \<noteq> [] \<and> (\<exists>pc. power_constraint DATA n = Inr pc \<and> pcs = replicate (length RESOURCES) pc))"
proof (cases "RESOURCES = []")
  case True
  then show ?thesis by (simp add: power_constraints_Inr)
next
  case False
  show ?thesis
  proof
    assume a: "power_constraints DATA RESOURCES n = Inr pcs"
    then have len: "length pcs = length RESOURCES"
      and each: "\<forall>r<length RESOURCES. power_constraint DATA n = Inr (pcs ! r)"
      by (simp_all add: power_constraints_Inr)
    from False each have first: "power_constraint DATA n = Inr (pcs ! 0)"
      by simp
    have eq: "pcs ! r = pcs ! 0" if "r < length RESOURCES" for r
    proof -
      from each that have "power_constraint DATA n = Inr (pcs ! r)"
        by blast
      with first have "Inr (pcs ! r) = (Inr (pcs ! 0) :: py_error + row_constraint)"
        by (simp only:)
      then show ?thesis by (simp only: sum.inject)
    qed
    have "pcs = replicate (length RESOURCES) (pcs ! 0)"
    proof (rule nth_equalityI)
      show "length pcs = length (replicate (length RESOURCES) (pcs ! 0))"
        using len by simp
    next
      fix i
      assume "i < length pcs"
      with len have i: "i < length RESOURCES" by simp
      then have "replicate (length RESOURCES) (pcs ! 0) ! i = pcs ! 0"
        by (rule nth_replicate)
      with eq[OF i] show "pcs ! i = replicate (length RESOURCES) (pcs ! 0) ! i"
        by (simp only:)
    qed
    with False first show "(RESOURCES = [] \<and> pcs = []) \<or>
     (RESOURCES \<noteq> [] \<and> (\<exists>pc. power_constraint DATA n = Inr pc \<and> pcs = replicate (length RESOURCES) pc))"
      by blast
  next
    assume "(RESOURCES = [] \<and> pcs = []) \<or>
     (RESOURCES \<noteq> [] \<and> (\<exists>pc. power_constraint DATA n = Inr pc \<and> pcs = replicate (length RESOURCES) pc))"
    with False show "power_constraints DATA RESOURCES n = Inr pcs"
      by (auto simp: power_constraints_Inr)
  qed
qed

text \<open>
  With at least one resource the loop is harmless: the combined \<^verbatim>\<open>solve_army\<close> builds a
  model exactly when the version with a single power constraint does, and the two
  models have the same feasible assignments and the same optimal values.
\<close>

lemma repeated_power_constraint_harmless:
  assumes ne: "RESOURCES \<noteq> []"
  shows "(\<exists>m. solve_army_combined_model UNITS DATA RESOURCES = Inr m) \<longleftrightarrow>
         (\<exists>m1. solve_army_once_model UNITS DATA RESOURCES = Inr m1)"
    and "solve_army_combined_model UNITS DATA RESOURCES = Inr m \<Longrightarrow>
         solve_army_once_model UNITS DATA RESOURCES = Inr m1 \<Longrightarrow>
         (feasible m xs \<longleftrightarrow> feasible m1 xs) \<and> (optimal_value m v \<longleftrightarrow> optimal_value m1 v)"
proof -
  show "(\<exists>m. solve_army_combined_model UNITS DATA RESOURCES = Inr m) \<longleftrightarrow>
         (\<exists>m1. solve_army_once_model UNITS DATA RESOURCES = Inr m1)"
    unfolding solve_army_combined_model_Inr solve_army_once_model_Inr power_constraints_replicate
    using ne by blast
next
  assume m: "solve_army_combined_model UNITS DATA RESOURCES = Inr m"
    and m1: "solve_army_once_model UNITS DATA RESOURCES = Inr m1"
  from m ne obtain pc cons obj where pc: "power_constraint DATA (length UNITS) = Inr pc"
    and cons: "resource_constraints DATA RESOURCES (length UNITS) = Inr cons"
    and obj: "unit_sum (length UNITS) (unit_cost DATA) = Inr obj"
    and md: "m = \<lparr>variables = make_units UNITS,
        constraints = replicate (length RESOURCES) pc @ cons, obj_coeffs = obj, obj_dir = Minimize\<rparr>"
    unfolding solve_army_combined_model_Inr power_constraints_replicate by blast
  from m1 pc cons obj have md1: "m1 = \<lparr>variables = make_units UNITS,
        constraints = pc # cons, obj_coeffs = obj, obj_dir = Minimize\<rparr>"
    unfolding solve_army_once_model_Inr by auto
  from ne have "set (replicate (length RESOURCES) pc) = {pc}"
    by simp
  then have same: "feasible m ys \<longleftrightarrow> feasible m1 ys" for ys
    by (simp add: feasible_def md md1 list_all_iff)
  have "objective m ys = objective m1 ys" for ys
    by (simp add: objective_def md md1)
  moreover have "obj_dir m = obj_dir m1"
    by (simp add: md md1)
  ultimately have "optimal_value m v \<longleftrightarrow> optimal_value m1 v"
    by (simp add: optimal_value_def same)
  with same show "(feasible m xs \<longleftrightarrow> feasible m1 xs) \<and> (optimal_value m v \<longleftrightarrow> optimal_value m1 v)"
    by simp
qed

lemma no_resources_models:
  "solve_army_combined_model [''a''] [[1, 1, 1, 0, 1]] [] =
     Inr \<lparr>variables = make_units [''a''], constraints = [], obj_coeffs = [3], obj_dir = Minimize\<rparr>"
  "solve_army_once_model [''a''] [[1, 1, 1, 0, 1]] [] =
     Inr \<lparr>variables = make_units [''a''],
          constraints = [\<lparr>coeffs = [1], row_sense = GE, rhs = 1000001\<rparr>],
          obj_coeffs = [3], obj_dir = Minimize\<rparr>"
  "solve_army_min_model [''a''] [[1, 1, 1, 0, 1]] [] =
     Inr \<lparr>variables = make_units [''a''],
          constraints = [\<lparr>coeffs = [1], row_sense = GE, rhs = 1000001\<rparr>],
          obj_coeffs = [3], obj_dir = Minimize\<rparr>"
  by code_simp+

lemma no_resources_optimum:
  "optimal_value \<lparr>variables = make_units [''a''], constraints = [], obj_coeffs = [3],
      obj_dir = Minimize\<rparr> 0"
  "optimal_value \<lparr>variables = make_units [''a''],
      constraints = [\<lparr>coeffs = [1], row_sense = GE, rhs = 1000001\<rparr>],
      obj_coeffs = [3], obj_dir = Minimize\<rparr> 3000003"
proof -
  show "optimal_value \<lparr>variables = make_units [''a''], constraints = [], obj_coeffs = [3],
      obj_dir = Minimize\<rparr> 0"
    unfolding optimal_value_def feasible_units1
    by (intro conjI exI[of _ "[0]"]) (auto simp: dot_def objective_def as_good_def)
  show "optimal_value \<lparr>variables = make_units [''a''],
      constraints = [\<lparr>coeffs = [1], row_sense = GE, rhs = 1000001\<rparr>],
      obj_coeffs = [3], obj_dir = Minimize\<rparr> 3000003"
    unfolding optimal_value_def feasible_units1
    by (intro conjI exI[of _ "[1000001]"]) (auto simp: row_holds_def dot_def objective_def as_good_def)
qed

text \<open>
  Claim C9 at the input \<open>UNITS = [a]\<close>, \<open>DATA = [[1, 1, 1, 0, 1]]\<close>, \<open>RESOURCES = []\<close>. The
  loop over the empty \<^verbatim>\<open>RESOURCES\<close> adds the power constraint zero times, so the
  combined \<^verbatim>\<open>solve_army\<close> builds a model with no constraint at all: the empty army is
  feasible and the optimal cost is 0. The model with the power constraint added once
  (which is also what the preceding \<^verbatim>\<open>solve_army\<close> of the notebook builds on this
  input) does not admit the empty army and has the optimal cost 3000003.
\<close>

theorem power_constraint_dropped_without_resources:
  "solve_army_combined_model [''a''] [[1, 1, 1, 0, 1]] [] =
     Inr \<lparr>variables = make_units [''a''], constraints = [], obj_coeffs = [3], obj_dir = Minimize\<rparr> \<and>
   solve_army_once_model [''a''] [[1, 1, 1, 0, 1]] [] =
     Inr \<lparr>variables = make_units [''a''],
          constraints = [\<lparr>coeffs = [1], row_sense = GE, rhs = 1000001\<rparr>],
          obj_coeffs = [3], obj_dir = Minimize\<rparr> \<and>
   solve_army_min_model [''a''] [[1, 1, 1, 0, 1]] [] =
     solve_army_once_model [''a''] [[1, 1, 1, 0, 1]] [] \<and>
   feasible \<lparr>variables = make_units [''a''], constraints = [], obj_coeffs = [3],
      obj_dir = Minimize\<rparr> [0] \<and>
   \<not> feasible \<lparr>variables = make_units [''a''],
          constraints = [\<lparr>coeffs = [1], row_sense = GE, rhs = 1000001\<rparr>],
          obj_coeffs = [3], obj_dir = Minimize\<rparr> [0] \<and>
   optimal_value \<lparr>variables = make_units [''a''], constraints = [], obj_coeffs = [3],
      obj_dir = Minimize\<rparr> 0 \<and>
   optimal_value \<lparr>variables = make_units [''a''],
      constraints = [\<lparr>coeffs = [1], row_sense = GE, rhs = 1000001\<rparr>],
      obj_coeffs = [3], obj_dir = Minimize\<rparr> 3000003"
proof -
  have f: "feasible \<lparr>variables = make_units [''a''], constraints = [], obj_coeffs = [3],
      obj_dir = Minimize\<rparr> [0]"
    by (simp add: feasible_units1)
  have nf: "\<not> feasible \<lparr>variables = make_units [''a''],
          constraints = [\<lparr>coeffs = [1], row_sense = GE, rhs = 1000001\<rparr>],
          obj_coeffs = [3], obj_dir = Minimize\<rparr> [0]"
    by (simp add: feasible_units1 row_holds_def dot_def)
  have same: "solve_army_min_model [''a''] [[1, 1, 1, 0, 1]] [] =
     solve_army_once_model [''a''] [[1, 1, 1, 0, 1]] []"
    by (simp only: no_resources_models)
  from no_resources_models(1,2) same f nf no_resources_optimum show ?thesis
    by blast
qed

text \<open>
  The theorem used: at this input the empty army costs nothing and meets every
  constraint of the combined model, which is the optimal value 0 that the theorem
  states, while 3000003 is attained by 1000001 units in the model with the constraint.
\<close>

theorem power_constraint_dropped_without_resources_witness:
  "feasible \<lparr>variables = make_units [''a''], constraints = [], obj_coeffs = [3],
      obj_dir = Minimize\<rparr> [0] \<and>
   objective \<lparr>variables = make_units [''a''], constraints = [], obj_coeffs = [3],
      obj_dir = Minimize\<rparr> [0] = 0 \<and>
   feasible \<lparr>variables = make_units [''a''],
      constraints = [\<lparr>coeffs = [1], row_sense = GE, rhs = 1000001\<rparr>],
      obj_coeffs = [3], obj_dir = Minimize\<rparr> [1000002] \<and>
   3000003 \<le> objective \<lparr>variables = make_units [''a''],
      constraints = [\<lparr>coeffs = [1], row_sense = GE, rhs = 1000001\<rparr>],
      obj_coeffs = [3], obj_dir = Minimize\<rparr> [1000002]"
proof -
  let ?C = "\<lparr>variables = make_units [''a''], constraints = [], obj_coeffs = [3],
      obj_dir = Minimize\<rparr>"
  let ?O = "\<lparr>variables = make_units [''a''],
      constraints = [\<lparr>coeffs = [1], row_sense = GE, rhs = 1000001\<rparr>],
      obj_coeffs = [3], obj_dir = Minimize\<rparr>"
  from power_constraint_dropped_without_resources have f: "feasible ?C [0]"
    and opt: "optimal_value ?O 3000003"
    by blast+
  have o: "objective ?C [0] = 0"
    by (simp add: objective_def dot_def)
  have g: "feasible ?O [1000002]"
    by (simp add: feasible_units1 row_holds_def dot_def)
  from opt g have "as_good (obj_dir ?O) 3000003 (objective ?O [1000002])"
    unfolding optimal_value_def by blast
  then have h: "3000003 \<le> objective ?O [1000002]"
    by (simp add: as_good_def)
  from f o g h show ?thesis by blast
qed
section \<open>What a model determines\<close>

text \<open>
  A model has at most one optimal value, but it may have several optimal assignments:
  which of them a run reports is decided inside the engine, not by the notebook.
\<close>

lemma optimal_value_unique:
  assumes "optimal_value m v" and "optimal_value m v'"
  shows "v = v'"
proof -
  from assms(1) obtain xs where xs: "feasible m xs" "objective m xs = v"
    unfolding optimal_value_def by blast
  from assms(2) obtain ys where ys: "feasible m ys" "objective m ys = v'"
    unfolding optimal_value_def by blast
  from assms(1) ys have a: "as_good (obj_dir m) v v'"
    unfolding optimal_value_def by blast
  from assms(2) xs have b: "as_good (obj_dir m) v' v"
    unfolding optimal_value_def by blast
  from a b show ?thesis
    by (cases "obj_dir m") (simp_all add: as_good_def)
qed

lemma two_optimal_assignments:
  "solve_army_model [''a'', ''b''] [[1, 1], [1, 1]] [1] =
     Inr \<lparr>variables = make_units [''a'', ''b''],
          constraints = [\<lparr>coeffs = [1, 1], row_sense = LE, rhs = 1\<rparr>],
          obj_coeffs = [1, 1], obj_dir = Maximize\<rparr>"
  "optimal_value \<lparr>variables = make_units [''a'', ''b''],
          constraints = [\<lparr>coeffs = [1, 1], row_sense = LE, rhs = 1\<rparr>],
          obj_coeffs = [1, 1], obj_dir = Maximize\<rparr> 1"
  "feasible \<lparr>variables = make_units [''a'', ''b''],
          constraints = [\<lparr>coeffs = [1, 1], row_sense = LE, rhs = 1\<rparr>],
          obj_coeffs = [1, 1], obj_dir = Maximize\<rparr> [1, 0]"
  "feasible \<lparr>variables = make_units [''a'', ''b''],
          constraints = [\<lparr>coeffs = [1, 1], row_sense = LE, rhs = 1\<rparr>],
          obj_coeffs = [1, 1], obj_dir = Maximize\<rparr> [0, 1]"
  "objective \<lparr>variables = make_units [''a'', ''b''],
          constraints = [\<lparr>coeffs = [1, 1], row_sense = LE, rhs = 1\<rparr>],
          obj_coeffs = [1, 1], obj_dir = Maximize\<rparr> [1, 0] = 1"
  "objective \<lparr>variables = make_units [''a'', ''b''],
          constraints = [\<lparr>coeffs = [1, 1], row_sense = LE, rhs = 1\<rparr>],
          obj_coeffs = [1, 1], obj_dir = Maximize\<rparr> [0, 1] = 1"
proof -
  show "solve_army_model [''a'', ''b''] [[1, 1], [1, 1]] [1] =
     Inr \<lparr>variables = make_units [''a'', ''b''],
          constraints = [\<lparr>coeffs = [1, 1], row_sense = LE, rhs = 1\<rparr>],
          obj_coeffs = [1, 1], obj_dir = Maximize\<rparr>"
    by code_simp
  show "optimal_value \<lparr>variables = make_units [''a'', ''b''],
          constraints = [\<lparr>coeffs = [1, 1], row_sense = LE, rhs = 1\<rparr>],
          obj_coeffs = [1, 1], obj_dir = Maximize\<rparr> 1"
    unfolding optimal_value_def feasible_units2
    by (intro conjI exI[of _ "[1, 0]"]) (auto simp: row_holds_def dot_def objective_def as_good_def)
qed (simp_all add: feasible_units2 row_holds_def dot_def objective_def)

end
